theory Spec2Isabelle
  imports Main
begin

section \<open>The blog application of main.py\<close>

text \<open>
  The program is a Flask application over three SQLAlchemy tables (users, blog_posts,
  comments) and a Flask-Login session. A request handler is modelled as a function from
  the session cookie and the database to either a failure (an exception that leaves the
  handler: \<open>abort(403)\<close>, \<open>abort(404)\<close>, an \<open>AttributeError\<close>, an
  \<open>IntegrityError\<close>) or a response with the new session and the committed database.
\<close>

subsection \<open>Tables\<close>

text \<open>
  The three model classes, column by column. The foreign-key columns are nullable in the
  source (no \<open>nullable=False\<close>), hence \<open>int option\<close>.
\<close>

record user =
  u_id :: int
  u_email :: string
  u_password :: string
  u_name :: string

record blog_post =
  p_id :: int
  p_author_id :: "int option"
  p_title :: string
  p_subtitle :: string
  p_date :: string
  p_body :: string
  p_img_url :: string

record comment =
  c_id :: int
  c_text :: string
  c_author_id :: "int option"
  c_post_id :: "int option"

text \<open>A table is the list of its rows in insertion order.\<close>

record database =
  users :: "user list"
  blog_posts :: "blog_post list"
  comments :: "comment list"

definition empty_database :: database where
  "empty_database = \<lparr>users = [], blog_posts = [], comments = []\<rparr>"

subsection \<open>Failures and responses\<close>

datatype failure =
    Not_Found        \<comment> \<open>\<open>get_or_404\<close>: HTTP 404\<close>
  | Forbidden        \<comment> \<open>\<open>abort(403)\<close>: HTTP 403\<close>
  | AttributeError   \<comment> \<open>unhandled exception: HTTP 500\<close>
  | IntegrityError   \<comment> \<open>unhandled exception raised by a flush or \<open>commit\<close>: HTTP 500\<close>
  | OverflowError    \<comment> \<open>unhandled exception raised when a key is bound: HTTP 500\<close>

fun status_code :: "failure \<Rightarrow> nat" where
  "status_code Not_Found = 404"
| "status_code Forbidden = 403"
| "status_code AttributeError = 500"
| "status_code IntegrityError = 500"
| "status_code OverflowError = 500"

text \<open>The endpoints that \<open>url_for\<close> is called with, and the templates rendered.\<close>

datatype endpoint = Ep_login | Ep_get_all_posts | Ep_show_post int

datatype page =
    Register_html
  | Login_html
  | Index_html "blog_post list"
  | Post_html blog_post
  | Make_post_html
  | About_html
  | Contact_html

datatype response =
    Redirect endpoint "string list"   \<comment> \<open>target and the messages flashed before it\<close>
  | Render page

text \<open>The session cookie holds the id of the logged-in user, or nothing.\<close>

type_synonym session = "int option"

type_synonym outcome = "failure + (response \<times> session \<times> database)"

subsection \<open>The storage layer\<close>

text \<open>
  The query behind \<open>get_or_404\<close>: the row with that primary key, or HTTP 404.
\<close>

definition select_by_key :: "('r \<Rightarrow> int) \<Rightarrow> 'r list \<Rightarrow> int \<Rightarrow> failure + 'r" where
  "select_by_key key rows i =
     (case find (\<lambda>r. key r = i) rows of None \<Rightarrow> Inl Not_Found | Some r \<Rightarrow> Inr r)"

text \<open>
  \<open>database.get_or_404(Model, id)\<close> with an integer \<open>id\<close>, as the routes call it with
  the \<open><int:post_id>\<close> of the URL. The URL converter accepts any string of digits; the
  store binds the key as a signed 64-bit integer and raises \<open>OverflowError\<close> for an
  integer outside that range, before any row is looked up.
\<close>

definition fits_int64 :: "int \<Rightarrow> bool" where
  "fits_int64 i \<longleftrightarrow> - 9223372036854775808 \<le> i \<and> i \<le> 9223372036854775807"

definition get_or_404 :: "('r \<Rightarrow> int) \<Rightarrow> 'r list \<Rightarrow> int \<Rightarrow> failure + 'r" where
  "get_or_404 key rows i =
     (if fits_int64 i then select_by_key key rows i else Inl OverflowError)"

text \<open>
  A new row gets the primary key the store assigns to an integer primary key: one more
  than the largest key in the table, 1 in an empty table (the default store is SQLite,
  keys are positive).
\<close>

definition next_id :: "int list \<Rightarrow> int" where
  "next_id ids = fold max ids 0 + 1"

text \<open>
  \<open>session.add(new_user); session.commit()\<close>. The email column is \<open>unique=True\<close>:
  the commit raises \<open>IntegrityError\<close> when the email is already in the table.
\<close>

definition insert_user :: "string \<Rightarrow> string \<Rightarrow> string \<Rightarrow> database \<Rightarrow> failure + (user \<times> database)" where
  "insert_user em nm pw d =
     (if em \<in> set (map u_email (users d)) then Inl IntegrityError
      else let u = \<lparr>u_id = next_id (map u_id (users d)), u_email = em,
                      u_password = pw, u_name = nm\<rparr>
           in Inr (u, d\<lparr>users := users d @ [u]\<rparr>))"

text \<open>
  \<open>session.add(new_post); session.commit()\<close>. The title column is \<open>unique=True\<close>.
\<close>

definition insert_post ::
  "string \<Rightarrow> string \<Rightarrow> string \<Rightarrow> string \<Rightarrow> int option \<Rightarrow> string \<Rightarrow> database
     \<Rightarrow> failure + (blog_post \<times> database)" where
  "insert_post title subtitle body img_url author date d =
     (if title \<in> set (map p_title (blog_posts d)) then Inl IntegrityError
      else let p = \<lparr>p_id = next_id (map p_id (blog_posts d)), p_author_id = author,
                      p_title = title, p_subtitle = subtitle, p_date = date,
                      p_body = body, p_img_url = img_url\<rparr>
           in Inr (p, d\<lparr>blog_posts := blog_posts d @ [p]\<rparr>))"

text \<open>
  \<open>session.commit()\<close> after the attributes of a loaded post were assigned: the row with
  the post's key is replaced; the title must not be the title of another row.
\<close>

definition update_post :: "blog_post \<Rightarrow> database \<Rightarrow> failure + database" where
  "update_post p d =
     (if p_title p \<in> set (map p_title (filter (\<lambda>q. p_id q \<noteq> p_id p) (blog_posts d)))
      then Inl IntegrityError
      else Inr (d\<lparr>blog_posts := map (\<lambda>q. if p_id q = p_id p then p else q) (blog_posts d)\<rparr>))"

text \<open>
  \<open>session.add(new_comment); session.commit()\<close>. The comments table has no constraint
  beyond its primary key.
\<close>

definition insert_comment :: "string \<Rightarrow> int option \<Rightarrow> int option \<Rightarrow> database \<Rightarrow> comment \<times> database" where
  "insert_comment txt author post d =
     (let c = \<lparr>c_id = next_id (map c_id (comments d)), c_text = txt,
                c_author_id = author, c_post_id = post\<rparr>
      in (c, d\<lparr>comments := comments d @ [c]\<rparr>))"

text \<open>
  \<open>session.delete(post_to_delete); session.commit()\<close>. The relationship
  \<open>BlogPost.comments\<close> is declared without a \<open>cascade\<close> argument, so the unit of work
  does not delete the post's comments: it sets their \<open>post_id\<close> to NULL and deletes the
  post's row.
\<close>

definition detach :: "int \<Rightarrow> comment \<Rightarrow> comment" where
  "detach i c = (if c_post_id c = Some i then c\<lparr>c_post_id := None\<rparr> else c)"

definition delete_post_row :: "blog_post \<Rightarrow> database \<Rightarrow> database" where
  "delete_post_row p d =
     d\<lparr>blog_posts := filter (\<lambda>q. p_id q \<noteq> p_id p) (blog_posts d),
       comments := map (detach (p_id p)) (comments d)\<rparr>"

subsection \<open>Passwords and dates\<close>

text \<open>
  \<open>generate_password_hash\<close> and \<open>check_password_hash\<close> are werkzeug's; the handlers
  take them as parameters. \<open>generate_password_hash\<close> draws a random salt (of length 8
  here): the salt drawn is an input of the request.

  \<open>date.today().strftime("%B %d, %Y")\<close>: the full month name, the day of the month
  as two digits, a comma, the year in decimal.
\<close>

datatype month =
    January | February | March | April | May | June
  | July | August | September | October | November | December

record date =
  year :: nat
  month :: month
  day :: nat

fun month_name :: "month \<Rightarrow> string" where
  "month_name January = ''January''"
| "month_name February = ''February''"
| "month_name March = ''March''"
| "month_name April = ''April''"
| "month_name May = ''May''"
| "month_name June = ''June''"
| "month_name July = ''July''"
| "month_name August = ''August''"
| "month_name September = ''September''"
| "month_name October = ''October''"
| "month_name November = ''November''"
| "month_name December = ''December''"

definition digit :: "nat \<Rightarrow> char" where
  "digit n = ''0123456789'' ! n"

fun decimal :: "nat \<Rightarrow> string" where
  "decimal n = (if n < 10 then [digit n] else decimal (n div 10) @ [digit (n mod 10)])"

definition two_digits :: "nat \<Rightarrow> string" where
  "two_digits n = (if n < 10 then CHR ''0'' # decimal n else decimal n)"

definition strftime_B_d_Y :: "date \<Rightarrow> string" where
  "strftime_B_d_Y t = month_name (month t) @ '' '' @ two_digits (day t) @ '', '' @ decimal (year t)"

subsection \<open>The current user\<close>

text \<open>
  \<open>current_user\<close> is resolved on first use in a request: without a user id in the
  session it is Flask-Login's \<open>AnonymousUserMixin\<close>; with one, the user loader runs,
  and \<open>load_user\<close> is \<open>database.get_or_404(User, user_id)\<close>. Flask-Login keeps the
  id in the session as a string and hands that string to the loader: a string is bound
  as text, for which the store has no integer range to overflow, so the loader either
  finds the row or aborts with HTTP 404.
\<close>

datatype principal = AnonymousUserMixin | Logged_in user

definition load_user :: "database \<Rightarrow> int \<Rightarrow> failure + user" where
  "load_user d user_id = select_by_key u_id (users d) user_id"

definition current_user :: "session \<Rightarrow> database \<Rightarrow> failure + principal" where
  "current_user sess d =
     (case sess of
        None \<Rightarrow> Inr AnonymousUserMixin
      | Some user_id \<Rightarrow>
          (case load_user d user_id of Inl e \<Rightarrow> Inl e | Inr u \<Rightarrow> Inr (Logged_in u)))"

fun is_authenticated :: "principal \<Rightarrow> bool" where
  "is_authenticated AnonymousUserMixin = False"
| "is_authenticated (Logged_in u) = True"

text \<open>
  \<open>current_user.id\<close>: \<open>AnonymousUserMixin\<close> has no attribute \<open>id\<close>.
\<close>

fun id_of :: "principal \<Rightarrow> failure + int" where
  "id_of AnonymousUserMixin = Inl AttributeError"
| "id_of (Logged_in u) = Inr (u_id u)"

text \<open>
  \<open>author=current_user\<close>, \<open>post.author = current_user\<close>, \<open>comment_author=current_user\<close>:
  assigning to a relationship attribute needs a mapped object. \<open>AnonymousUserMixin\<close> is
  not one (\<open>AttributeError\<close>: no \<open>_sa_instance_state\<close>); for a user the foreign key
  becomes the user's id.
\<close>

definition as_author :: "session \<Rightarrow> database \<Rightarrow> failure + int option" where
  "as_author sess d =
     (case current_user sess d of
        Inl e \<Rightarrow> Inl e
      | Inr AnonymousUserMixin \<Rightarrow> Inl AttributeError
      | Inr (Logged_in u) \<Rightarrow> Inr (Some (u_id u)))"

text \<open>
  \<open>render_template(..., current_user=current_user)\<close>: rendering resolves the current
  user (Flask-Login also injects it into every template context).
\<close>

definition render_template :: "page \<Rightarrow> session \<Rightarrow> database \<Rightarrow> outcome" where
  "render_template pg sess d =
     (case current_user sess d of Inl e \<Rightarrow> Inl e | Inr _ \<Rightarrow> Inr (Render pg, sess, d))"

subsection \<open>The decorator\<close>

definition admin_only :: "(session \<Rightarrow> database \<Rightarrow> outcome) \<Rightarrow> session \<Rightarrow> database \<Rightarrow> outcome" where
  "admin_only function_to_be_passed sess d =
     (case current_user sess d of
        Inl e \<Rightarrow> Inl e
      | Inr cu \<Rightarrow>
          (case id_of cu of
             Inl e \<Rightarrow> Inl e
           | Inr i \<Rightarrow> if i \<noteq> 1 then Inl Forbidden else function_to_be_passed sess d))"

subsection \<open>Forms\<close>

text \<open>
  The form classes are declared in forms.py. A handler sees a form through
  \<open>validate_on_submit()\<close> and the \<open>data\<close> of its fields: \<open>None\<close> stands for a
  request that is not a valid submission (a GET, or a POST that fails validation),
  \<open>Some f\<close> for a valid submission with the field data \<open>f\<close>.
\<close>

record registration_form =
  rf_email :: string
  rf_password :: string
  rf_name :: string

record login_form =
  lf_email :: string
  lf_password :: string

record create_blog_post_form =
  bf_title :: string
  bf_subtitle :: string
  bf_body :: string
  bf_img_url :: string

record comment_form =
  comment_text :: string

subsection \<open>The route handlers\<close>

text \<open>
  \<open>database.session.execute(database.select(User).where(User.email == e)).scalar()\<close>:
  the first user with that email, if any.
\<close>

definition user_by_email :: "database \<Rightarrow> string \<Rightarrow> user option" where
  "user_by_email d e = find (\<lambda>u. u_email u = e) (users d)"

definition register ::
  "(string \<Rightarrow> string \<Rightarrow> string) \<Rightarrow> string \<Rightarrow> registration_form option
     \<Rightarrow> session \<Rightarrow> database \<Rightarrow> outcome" where
  "register generate_password_hash salt form sess d =
     (case form of
        None \<Rightarrow> render_template Register_html sess d
      | Some f \<Rightarrow>
          (case user_by_email d (rf_email f) of
             Some u \<Rightarrow>
               Inr (Redirect Ep_login
                      [''You've already signed up with that email, log in instead!''],
                    sess, d)
           | None \<Rightarrow>
               (case insert_user (rf_email f) (rf_name f)
                       (generate_password_hash (rf_password f) salt) d of
                  Inl e \<Rightarrow> Inl e
                | Inr (new_user, d') \<Rightarrow>
                    Inr (Redirect Ep_get_all_posts [], Some (u_id new_user), d'))))"

definition login ::
  "(string \<Rightarrow> string \<Rightarrow> bool) \<Rightarrow> login_form option \<Rightarrow> session \<Rightarrow> database \<Rightarrow> outcome" where
  "login check_password_hash form sess d =
     (case form of
        None \<Rightarrow> render_template Login_html sess d
      | Some f \<Rightarrow>
          (case user_by_email d (lf_email f) of
             None \<Rightarrow>
               Inr (Redirect Ep_login [''That email does not exist, please try again.''],
                    sess, d)
           | Some u \<Rightarrow>
               if \<not> check_password_hash (u_password u) (lf_password f)
               then Inr (Redirect Ep_login [''Password incorrect, please try again.''],
                         sess, d)
               else Inr (Redirect Ep_get_all_posts [], Some (u_id u), d)))"

text \<open>
  \<open>logout_user()\<close> reads the current user, then removes the user id from the session.
\<close>

definition logout :: "session \<Rightarrow> database \<Rightarrow> outcome" where
  "logout sess d =
     (case current_user sess d of
        Inl e \<Rightarrow> Inl e
      | Inr _ \<Rightarrow> Inr (Redirect Ep_get_all_posts [], None, d))"

definition get_all_posts :: "session \<Rightarrow> database \<Rightarrow> outcome" where
  "get_all_posts sess d = render_template (Index_html (blog_posts d)) sess d"

definition show_post :: "int \<Rightarrow> comment_form option \<Rightarrow> session \<Rightarrow> database \<Rightarrow> outcome" where
  "show_post post_id form sess d =
     (case get_or_404 p_id (blog_posts d) post_id of
        Inl e \<Rightarrow> Inl e
      | Inr requested_post \<Rightarrow>
          (case form of
             None \<Rightarrow> render_template (Post_html requested_post) sess d
           | Some f \<Rightarrow>
               (case current_user sess d of
                  Inl e \<Rightarrow> Inl e
                | Inr cu \<Rightarrow>
                    if \<not> is_authenticated cu
                    then Inr (Redirect Ep_login
                                [''You need to login or register to comment.''], sess, d)
                    else
                      (case as_author sess d of
                         Inl e \<Rightarrow> Inl e
                       | Inr author \<Rightarrow>
                           (case insert_comment (comment_text f) author
                                   (Some (p_id requested_post)) d of
                              (new_comment, d') \<Rightarrow>
                                render_template (Post_html requested_post) sess d')))))"

definition add_new_post :: "date \<Rightarrow> create_blog_post_form option \<Rightarrow> session \<Rightarrow> database \<Rightarrow> outcome" where
  "add_new_post today form =
     admin_only (\<lambda>sess d.
       case form of
         None \<Rightarrow> render_template Make_post_html sess d
       | Some f \<Rightarrow>
           (case as_author sess d of
              Inl e \<Rightarrow> Inl e
            | Inr author \<Rightarrow>
                (case insert_post (bf_title f) (bf_subtitle f) (bf_body f) (bf_img_url f)
                        author (strftime_B_d_Y today) d of
                   Inl e \<Rightarrow> Inl e
                 | Inr (new_post, d') \<Rightarrow> Inr (Redirect Ep_get_all_posts [], sess, d'))))"

text \<open>
  \<open>edit_post\<close> carries no \<open>@admin_only\<close>. It assigns the form's title, subtitle
  and image URL to the loaded post, then \<open>post.author = current_user\<close>, then the body,
  and commits. With a user id in the session, resolving \<open>current_user\<close> runs the user
  loader's query, and the session flushes its pending changes before a query: the
  assignments made so far are written first, and the unique title column is checked
  then. Without a user id no query runs.
\<close>

definition autoflush :: "blog_post \<Rightarrow> session \<Rightarrow> database \<Rightarrow> failure + unit" where
  "autoflush pending sess d =
     (case sess of
        None \<Rightarrow> Inr ()
      | Some user_id \<Rightarrow>
          (case update_post pending d of Inl e \<Rightarrow> Inl e | Inr _ \<Rightarrow> Inr ()))"

definition edit_post :: "int \<Rightarrow> create_blog_post_form option \<Rightarrow> session \<Rightarrow> database \<Rightarrow> outcome" where
  "edit_post post_id form sess d =
     (case get_or_404 p_id (blog_posts d) post_id of
        Inl e \<Rightarrow> Inl e
      | Inr post \<Rightarrow>
          (case form of
             None \<Rightarrow> render_template Make_post_html sess d
           | Some f \<Rightarrow>
               (case autoflush (post\<lparr>p_title := bf_title f, p_subtitle := bf_subtitle f,
                                      p_img_url := bf_img_url f\<rparr>) sess d of
                  Inl e \<Rightarrow> Inl e
                | Inr _ \<Rightarrow>
                    (case as_author sess d of
                       Inl e \<Rightarrow> Inl e
                     | Inr author \<Rightarrow>
                         (case update_post
                                 (post\<lparr>p_title := bf_title f, p_subtitle := bf_subtitle f,
                                       p_img_url := bf_img_url f, p_author_id := author,
                                       p_body := bf_body f\<rparr>) d of
                            Inl e \<Rightarrow> Inl e
                          | Inr d' \<Rightarrow>
                              Inr (Redirect (Ep_show_post (p_id post)) [], sess, d'))))))"

definition delete_post :: "int \<Rightarrow> session \<Rightarrow> database \<Rightarrow> outcome" where
  "delete_post post_id =
     admin_only (\<lambda>sess d.
       case get_or_404 p_id (blog_posts d) post_id of
         Inl e \<Rightarrow> Inl e
       | Inr post_to_delete \<Rightarrow>
           Inr (Redirect Ep_get_all_posts [], sess, delete_post_row post_to_delete d))"

definition about :: "session \<Rightarrow> database \<Rightarrow> outcome" where
  "about sess d = render_template About_html sess d"

definition contact :: "session \<Rightarrow> database \<Rightarrow> outcome" where
  "contact sess d = render_template Contact_html sess d"

subsection \<open>Requests and runs\<close>

text \<open>
  The routes of the application. A request that fails leaves the session and the
  database as they were: nothing was committed.
\<close>

datatype request =
    Req_register string "registration_form option"
  | Req_login "login_form option"
  | Req_logout
  | Req_get_all_posts
  | Req_show_post int "comment_form option"
  | Req_add_new_post date "create_blog_post_form option"
  | Req_edit_post int "create_blog_post_form option"
  | Req_delete_post int
  | Req_about
  | Req_contact

fun route ::
  "(string \<Rightarrow> string \<Rightarrow> string) \<Rightarrow> (string \<Rightarrow> string \<Rightarrow> bool) \<Rightarrow> request
     \<Rightarrow> session \<Rightarrow> database \<Rightarrow> outcome" where
  "route gph cph (Req_register salt form) = register gph salt form"
| "route gph cph (Req_login form) = login cph form"
| "route gph cph Req_logout = logout"
| "route gph cph Req_get_all_posts = get_all_posts"
| "route gph cph (Req_show_post post_id form) = show_post post_id form"
| "route gph cph (Req_add_new_post today form) = add_new_post today form"
| "route gph cph (Req_edit_post post_id form) = edit_post post_id form"
| "route gph cph (Req_delete_post post_id) = delete_post post_id"
| "route gph cph Req_about = about"
| "route gph cph Req_contact = contact"

definition after :: "outcome \<Rightarrow> session \<times> database \<Rightarrow> session \<times> database" where
  "after out st = (case out of Inl e \<Rightarrow> st | Inr (r, sess', d') \<Rightarrow> (sess', d'))"

definition serve ::
  "(string \<Rightarrow> string \<Rightarrow> string) \<Rightarrow> (string \<Rightarrow> string \<Rightarrow> bool) \<Rightarrow> request
     \<Rightarrow> session \<times> database \<Rightarrow> session \<times> database" where
  "serve gph cph req st = after (route gph cph req (fst st) (snd st)) st"

text \<open>One browser, starting without a session on the empty database.\<close>

definition run ::
  "(string \<Rightarrow> string \<Rightarrow> string) \<Rightarrow> (string \<Rightarrow> string \<Rightarrow> bool) \<Rightarrow> request list
     \<Rightarrow> session \<times> database" where
  "run gph cph reqs = fold (serve gph cph) reqs (None, empty_database)"

subsection \<open>Integrity of the tables\<close>

text \<open>
  What the schema promises of a database: primary keys, emails and titles are unique,
  the author of a post and of a comment is a user of the users table, and the parent of
  a comment is a post of the blog_posts table unless the column is NULL.
\<close>

definition post_refs_ok :: "database \<Rightarrow> blog_post \<Rightarrow> bool" where
  "post_refs_ok d p \<longleftrightarrow> (\<exists>u \<in> set (users d). p_author_id p = Some (u_id u))"

definition comment_refs_ok :: "database \<Rightarrow> comment \<Rightarrow> bool" where
  "comment_refs_ok d c \<longleftrightarrow>
     (\<exists>u \<in> set (users d). c_author_id c = Some (u_id u)) \<and>
     (c_post_id c = None \<or> (\<exists>p \<in> set (blog_posts d). c_post_id c = Some (p_id p)))"

definition db_inv :: "database \<Rightarrow> bool" where
  "db_inv d \<longleftrightarrow>
     distinct (map u_id (users d)) \<and> distinct (map u_email (users d)) \<and>
     distinct (map p_id (blog_posts d)) \<and> distinct (map p_title (blog_posts d)) \<and>
     distinct (map c_id (comments d)) \<and>
     (\<forall>p \<in> set (blog_posts d). post_refs_ok d p) \<and>
     (\<forall>c \<in> set (comments d). comment_refs_ok d c)"

subsection \<open>A small site\<close>

text \<open>
  Concrete data for the examples below: stand-ins for the two werkzeug functions (the
  hash is the salt, a dollar sign and the password), an administrator, a second user,
  one post and one comment of the second user on it.
\<close>

definition toy_hash :: "string \<Rightarrow> string \<Rightarrow> string" where
  "toy_hash pw salt = salt @ ''$'' @ pw"

definition toy_check :: "string \<Rightarrow> string \<Rightarrow> bool" where
  "toy_check h pw \<longleftrightarrow> drop 8 h = ''$'' @ pw"

definition example_admin :: user where
  "example_admin = \<lparr>u_id = 1, u_email = ''admin@x.com'', u_password = ''saltsalt$root'',
                     u_name = ''Admin''\<rparr>"

definition example_reader :: user where
  "example_reader = \<lparr>u_id = 2, u_email = ''a@x.com'', u_password = ''pepperpe$pw'',
                      u_name = ''A''\<rparr>"

definition example_post :: blog_post where
  "example_post = \<lparr>p_id = 1, p_author_id = Some 1, p_title = ''Hello'', p_subtitle = ''S'',
                    p_date = ''June 03, 2025'', p_body = ''B'', p_img_url = ''U''\<rparr>"

definition example_comment :: comment where
  "example_comment = \<lparr>c_id = 1, c_text = ''hi'', c_author_id = Some 2, c_post_id = Some 1\<rparr>"

definition example_db :: database where
  "example_db = \<lparr>users = [example_admin, example_reader], blog_posts = [example_post],
                  comments = [example_comment]\<rparr>"

definition example_day :: date where
  "example_day = \<lparr>year = 2025, month = June, day = 3\<rparr>"

definition example_form :: create_blog_post_form where
  "example_form = \<lparr>bf_title = ''Hello'', bf_subtitle = ''S'', bf_body = ''B'', bf_img_url = ''U''\<rparr>"

text \<open>The requests of one browser that build this database from the empty one.\<close>

definition example_requests :: "request list" where
  "example_requests =
     [Req_register ''saltsalt''
        (Some \<lparr>rf_email = ''admin@x.com'', rf_password = ''root'', rf_name = ''Admin''\<rparr>),
      Req_add_new_post example_day (Some example_form),
      Req_logout,
      Req_register ''pepperpe''
        (Some \<lparr>rf_email = ''a@x.com'', rf_password = ''pw'', rf_name = ''A''\<rparr>),
      Req_show_post 1 (Some \<lparr>comment_text = ''hi''\<rparr>)]"

text \<open>The administrator logs in again and deletes the post.\<close>

definition example_delete_requests :: "request list" where
  "example_delete_requests =
     example_requests @
     [Req_logout,
      Req_login (Some \<lparr>lf_email = ''admin@x.com'', lf_password = ''root''\<rparr>),
      Req_delete_post 1]"

definition example_db_deleted :: database where
  "example_db_deleted =
     \<lparr>users = [example_admin, example_reader], blog_posts = [],
      comments = [\<lparr>c_id = 1, c_text = ''hi'', c_author_id = Some 2, c_post_id = None\<rparr>]\<rparr>"

text \<open>The small site with a second post, titled \<open>World\<close>.\<close>

definition example_db_two_posts :: database where
  "example_db_two_posts =
     example_db\<lparr>blog_posts := [example_post, example_post\<lparr>p_id := 2, p_title := ''World''\<rparr>]\<rparr>"

section \<open>Properties\<close>

subsection \<open>Keys and lookups\<close>

lemma fold_max_ge: "(a::int) \<le> fold max ids a"
proof (induction ids arbitrary: a)
  case Nil
  show ?case by simp
next
  case (Cons j js)
  have "a \<le> max j a" by simp
  also have "\<dots> \<le> fold max js (max j a)" by (rule Cons.IH)
  finally show ?case by simp
qed

lemma fold_max_mem: "(i::int) \<in> set ids \<Longrightarrow> i \<le> fold max ids a"
proof (induction ids arbitrary: a)
  case Nil
  then show ?case by simp
next
  case (Cons j js)
  show ?case
  proof (cases "i = j")
    case True
    have "i \<le> max j a" using True by simp
    also have "\<dots> \<le> fold max js (max j a)" by (rule fold_max_ge)
    finally show ?thesis by simp
  next
    case False
    with Cons.prems have "i \<in> set js" by simp
    then show ?thesis using Cons.IH by simp
  qed
qed

lemma next_id_greater: "i \<in> set ids \<Longrightarrow> i < next_id ids"
  using fold_max_mem [of i ids 0] by (simp add: next_id_def)

lemma next_id_fresh: "next_id ids \<notin> set ids"
  using next_id_greater [of "next_id ids" ids] by auto

lemma select_by_key_Inr:
  "select_by_key key rows i = Inr r \<Longrightarrow> r \<in> set rows \<and> key r = i"
  by (auto simp: select_by_key_def find_Some_iff split: option.splits)

lemma select_by_key_Inl:
  "select_by_key key rows i = Inl e \<Longrightarrow> e = Not_Found \<and> i \<notin> key ` set rows"
  by (auto simp: select_by_key_def find_None_iff split: option.splits)

lemma select_by_key_missing:
  "i \<notin> key ` set rows \<Longrightarrow> select_by_key key rows i = Inl Not_Found"
  by (cases "select_by_key key rows i") (auto dest: select_by_key_Inl select_by_key_Inr)

lemma find_distinct_key:
  "distinct (map key rows) \<Longrightarrow> r \<in> set rows \<Longrightarrow> find (\<lambda>x. key x = key r) rows = Some r"
  by (induction rows) auto

lemma select_by_key_distinct:
  "distinct (map key rows) \<Longrightarrow> r \<in> set rows \<Longrightarrow> select_by_key key rows (key r) = Inr r"
  by (simp add: select_by_key_def find_distinct_key)

lemma find_append_fresh:
  "\<forall>x \<in> set rows. \<not> P x \<Longrightarrow> P r \<Longrightarrow> find P (rows @ [r]) = Some r"
  by (induction rows) auto

lemma select_by_key_appended:
  assumes "key r \<notin> key ` set rows"
  shows "select_by_key key (rows @ [r]) (key r) = Inr r"
proof -
  have "find (\<lambda>x. key x = key r) (rows @ [r]) = Some r"
    by (rule find_append_fresh) (use assms in \<open>auto simp: image_iff\<close>)
  then show ?thesis by (simp add: select_by_key_def)
qed

lemma get_or_404_Inr:
  "get_or_404 key rows i = Inr r \<Longrightarrow> r \<in> set rows \<and> key r = i \<and> fits_int64 i"
  by (auto simp: get_or_404_def dest: select_by_key_Inr split: if_splits)

lemma get_or_404_overflow:
  "\<not> fits_int64 i \<Longrightarrow> get_or_404 key rows i = Inl OverflowError"
  by (simp add: get_or_404_def)

lemma get_or_404_missing:
  "i \<notin> key ` set rows \<Longrightarrow> fits_int64 i \<Longrightarrow> get_or_404 key rows i = Inl Not_Found"
  by (simp add: get_or_404_def select_by_key_missing)

lemma get_or_404_distinct:
  "distinct (map key rows) \<Longrightarrow> r \<in> set rows \<Longrightarrow> fits_int64 (key r) \<Longrightarrow>
     get_or_404 key rows (key r) = Inr r"
  by (simp add: get_or_404_def select_by_key_distinct)

lemma get_or_404_appended:
  "key r \<notin> key ` set rows \<Longrightarrow> fits_int64 (key r) \<Longrightarrow>
     get_or_404 key (rows @ [r]) (key r) = Inr r"
  by (simp add: get_or_404_def select_by_key_appended)

lemma fold_max_le: "\<forall>i \<in> set ids. i \<le> n \<Longrightarrow> (a::int) \<le> n \<Longrightarrow> fold max ids a \<le> n"
  by (induction ids arbitrary: a) simp_all

lemma next_id_fits:
  assumes "\<forall>i \<in> set ids. i < 9223372036854775807"
  shows "fits_int64 (next_id ids)"
proof -
  have "\<forall>i \<in> set ids. i \<le> 9223372036854775806" using assms by auto
  then have "fold max ids 0 \<le> 9223372036854775806" by (rule fold_max_le) simp
  moreover have "0 \<le> fold max ids 0" by (rule fold_max_ge)
  ultimately show ?thesis by (simp add: next_id_def fits_int64_def)
qed

lemma user_by_email_None: "user_by_email d e = None \<longleftrightarrow> e \<notin> u_email ` set (users d)"
  by (auto simp: user_by_email_def find_None_iff)

lemma user_by_email_Some:
  "user_by_email d e = Some u \<Longrightarrow> u \<in> set (users d) \<and> u_email u = e"
  by (auto simp: user_by_email_def find_Some_iff)

subsection \<open>Who the current user is\<close>

lemma current_user_Logged_in:
  "current_user sess d = Inr (Logged_in u) \<Longrightarrow> sess = Some (u_id u) \<and> u \<in> set (users d)"
  by (auto simp: current_user_def load_user_def dest: select_by_key_Inr
           split: option.splits sum.splits)

lemma current_user_Anonymous:
  "current_user sess d = Inr AnonymousUserMixin \<longleftrightarrow> sess = None"
  by (auto simp: current_user_def split: option.splits sum.splits)

lemma current_user_of_row:
  "distinct (map u_id (users d)) \<Longrightarrow> u \<in> set (users d) \<Longrightarrow>
     current_user (Some (u_id u)) d = Inr (Logged_in u)"
  by (simp add: current_user_def load_user_def select_by_key_distinct)

lemma current_user_same_users:
  "users d' = users d \<Longrightarrow> current_user sess d' = current_user sess d"
  by (cases sess) (simp_all add: current_user_def load_user_def)

lemma as_author_Inr:
  "as_author sess d = Inr a \<Longrightarrow> \<exists>u \<in> set (users d). a = Some (u_id u) \<and> sess = Some (u_id u)"
  by (auto simp: as_author_def dest: current_user_Logged_in split: sum.splits principal.splits)

lemma as_author_Logged_in:
  "current_user sess d = Inr (Logged_in u) \<Longrightarrow> as_author sess d = Inr (Some (u_id u))"
  by (simp add: as_author_def)

lemma render_template_Inr:
  "render_template pg sess d = Inr (r, sess', d') \<Longrightarrow> r = Render pg \<and> sess' = sess \<and> d' = d"
  by (auto simp: render_template_def split: sum.splits)

lemma admin_only_Inr:
  "admin_only f sess d = Inr x \<Longrightarrow>
     f sess d = Inr x \<and> sess = Some 1 \<and> (\<exists>u \<in> set (users d). u_id u = 1)"
proof -
  assume a: "admin_only f sess d = Inr x"
  then obtain cu where cu: "current_user sess d = Inr cu"
    by (cases "current_user sess d") (auto simp: admin_only_def)
  with a obtain u where u: "cu = Logged_in u"
    by (cases cu) (auto simp: admin_only_def)
  with a cu have "u_id u = 1" and f: "f sess d = Inr x"
    by (auto simp: admin_only_def split: if_splits)
  with current_user_Logged_in [of sess d u] cu u show ?thesis by auto
qed

lemma admin_only_admin:
  "current_user sess d = Inr (Logged_in u) \<Longrightarrow> u_id u = 1 \<Longrightarrow> admin_only f sess d = f sess d"
  by (simp add: admin_only_def)

subsection \<open>Each storage operation keeps the tables intact\<close>

lemma comment_refs_ok_mono:
  assumes "comment_refs_ok d c" "set (users d) \<subseteq> set (users d')"
    "p_id ` set (blog_posts d) \<subseteq> p_id ` set (blog_posts d')"
  shows "comment_refs_ok d' c"
proof -
  from assms(1) obtain u where u: "u \<in> set (users d)" "c_author_id c = Some (u_id u)"
    by (auto simp: comment_refs_ok_def)
  with assms(2) have a: "\<exists>u \<in> set (users d'). c_author_id c = Some (u_id u)" by blast
  have b: "c_post_id c = None \<or> (\<exists>p \<in> set (blog_posts d'). c_post_id c = Some (p_id p))"
  proof (cases "c_post_id c")
    case None
    then show ?thesis by simp
  next
    case (Some i)
    with assms(1) have "i \<in> p_id ` set (blog_posts d)"
      by (auto simp: comment_refs_ok_def)
    with assms(3) have "i \<in> p_id ` set (blog_posts d')" by blast
    with Some show ?thesis by auto
  qed
  from a b show ?thesis by (simp add: comment_refs_ok_def)
qed

lemma insert_user_inv:
  assumes "db_inv d" "insert_user em nm pw d = Inr (u, d')"
  shows "db_inv d'"
proof -
  from assms(2) have fresh: "em \<notin> set (map u_email (users d))"
    and u: "u = \<lparr>u_id = next_id (map u_id (users d)), u_email = em, u_password = pw, u_name = nm\<rparr>"
    and d': "d' = d\<lparr>users := users d @ [u]\<rparr>"
    by (auto simp: insert_user_def Let_def split: if_splits)
  have id_fresh: "u_id u \<notin> set (map u_id (users d))"
    using next_id_fresh [of "map u_id (users d)"] by (simp add: u)
  have "post_refs_ok d' p" if "post_refs_ok d p" for p
    using that by (auto simp: post_refs_ok_def d')
  moreover have "comment_refs_ok d' c" if "comment_refs_ok d c" for c
    using that by (auto simp: comment_refs_ok_def d')
  ultimately show ?thesis
    using assms(1) fresh id_fresh by (simp add: db_inv_def) (simp add: d' u)
qed

lemma insert_post_inv:
  assumes "db_inv d" "insert_post t s b i a dt d = Inr (p, d')"
    "\<exists>u \<in> set (users d). a = Some (u_id u)"
  shows "db_inv d'"
proof -
  from assms(2) have fresh: "t \<notin> set (map p_title (blog_posts d))"
    and p: "p = \<lparr>p_id = next_id (map p_id (blog_posts d)), p_author_id = a, p_title = t,
                  p_subtitle = s, p_date = dt, p_body = b, p_img_url = i\<rparr>"
    and d': "d' = d\<lparr>blog_posts := blog_posts d @ [p]\<rparr>"
    by (auto simp: insert_post_def Let_def split: if_splits)
  have id_fresh: "p_id p \<notin> set (map p_id (blog_posts d))"
    using next_id_fresh [of "map p_id (blog_posts d)"] by (simp add: p)
  have "post_refs_ok d' p"
    using assms(3) by (simp add: post_refs_ok_def d' p)
  moreover have "post_refs_ok d' q" if "post_refs_ok d q" for q
    using that by (auto simp: post_refs_ok_def d')
  moreover have "comment_refs_ok d' c" if "comment_refs_ok d c" for c
    using that by (auto simp: comment_refs_ok_def d')
  ultimately show ?thesis
    using assms(1) fresh id_fresh by (simp add: db_inv_def) (simp add: d' p)
qed

lemma insert_comment_inv:
  assumes "db_inv d" "insert_comment txt a po d = (c, d')"
    "\<exists>u \<in> set (users d). a = Some (u_id u)" "\<exists>p \<in> set (blog_posts d). po = Some (p_id p)"
  shows "db_inv d'"
proof -
  from assms(2) have c: "c = \<lparr>c_id = next_id (map c_id (comments d)), c_text = txt,
                                c_author_id = a, c_post_id = po\<rparr>"
    and d': "d' = d\<lparr>comments := comments d @ [c]\<rparr>"
    by (auto simp: insert_comment_def Let_def)
  have id_fresh: "c_id c \<notin> set (map c_id (comments d))"
    using next_id_fresh [of "map c_id (comments d)"] by (simp add: c)
  have "comment_refs_ok d' c"
    using assms(3,4) by (simp add: comment_refs_ok_def d' c)
  moreover have "comment_refs_ok d' x" if "comment_refs_ok d x" for x
    using that by (auto simp: comment_refs_ok_def d')
  moreover have "post_refs_ok d' q" if "post_refs_ok d q" for q
    using that by (auto simp: post_refs_ok_def d')
  ultimately show ?thesis
    using assms(1) id_fresh by (simp add: db_inv_def) (simp add: d' c)
qed

lemma map_replace_ids:
  "map p_id (map (\<lambda>q. if p_id q = p_id p then p else q) ps) = map p_id ps"
  by (induction ps) auto

lemma mem_replace:
  "x \<in> set (map (\<lambda>q. if p_id q = p_id p then p else q) ps) \<Longrightarrow> x = p \<or> x \<in> set ps"
  by (induction ps) (auto split: if_splits)

lemma replace_absent:
  "\<forall>q \<in> set xs. p_id q \<noteq> p_id p \<Longrightarrow> map (\<lambda>q. if p_id q = p_id p then p else q) xs = xs"
  by (induction xs) auto

lemma filter_absent:
  "\<forall>q \<in> set xs. p_id q \<noteq> p_id p \<Longrightarrow> filter (\<lambda>q. p_id q \<noteq> p_id p) xs = xs"
  by (induction xs) auto

lemma distinct_titles_replace:
  assumes "distinct (map p_title ps)"
    "p_title p \<notin> set (map p_title (filter (\<lambda>q. p_id q \<noteq> p_id p) ps))"
    "distinct (map p_id ps)"
  shows "distinct (map p_title (map (\<lambda>q. if p_id q = p_id p then p else q) ps))"
  using assms
proof (induction ps)
  case Nil
  then show ?case by simp
next
  case (Cons x xs)
  show ?case
  proof (cases "p_id x = p_id p")
    case True
    with Cons.prems(3) have other: "\<forall>q \<in> set xs. p_id q \<noteq> p_id p"
      by (auto simp: image_iff)
    from Cons.prems(2) True have "p_title p \<notin> set (map p_title xs)"
      by (simp add: filter_absent [OF other])
    with Cons.prems(1) True show ?thesis
      by (simp add: replace_absent [OF other])
  next
    case False
    with Cons.prems have IH: "distinct (map p_title (map (\<lambda>q. if p_id q = p_id p then p else q) xs))"
      and nx: "p_title x \<notin> set (map p_title xs)" and np: "p_title p \<noteq> p_title x"
      using Cons.IH by auto
    have "p_title x \<notin> set (map p_title (map (\<lambda>q. if p_id q = p_id p then p else q) xs))"
      using nx np by (auto simp: image_iff)
    with IH False show ?thesis by simp
  qed
qed

lemma update_post_Inr:
  assumes "update_post p d = Inr d'"
  shows "p_title p \<notin> set (map p_title (filter (\<lambda>q. p_id q \<noteq> p_id p) (blog_posts d)))"
    and "blog_posts d' = map (\<lambda>q. if p_id q = p_id p then p else q) (blog_posts d)"
    and "users d' = users d" and "comments d' = comments d"
  using assms unfolding update_post_def by (auto split: if_splits)

lemma update_post_inv:
  assumes "db_inv d" "update_post p d = Inr d'"
    "\<exists>u \<in> set (users d). p_author_id p = Some (u_id u)"
  shows "db_inv d'"
proof -
  note fresh = update_post_Inr(1) [OF assms(2)]
  note bp = update_post_Inr(2) [OF assms(2)]
  note us = update_post_Inr(3) [OF assms(2)]
  note cs = update_post_Inr(4) [OF assms(2)]
  have ids: "map p_id (blog_posts d') = map p_id (blog_posts d)"
    unfolding bp by (rule map_replace_ids)
  have dt: "distinct (map p_title (blog_posts d))" and di: "distinct (map p_id (blog_posts d))"
    using assms(1) by (simp_all add: db_inv_def)
  have titles: "distinct (map p_title (blog_posts d'))"
    unfolding bp by (rule distinct_titles_replace [OF dt fresh di])
  have "set (map p_id (blog_posts d')) = set (map p_id (blog_posts d))"
    by (simp only: ids)
  then have img: "p_id ` set (blog_posts d') = p_id ` set (blog_posts d)"
    by (simp only: set_map)
  have "comment_refs_ok d' c" if "comment_refs_ok d c" for c
    by (rule comment_refs_ok_mono [OF that]) (simp_all add: us img)
  then have "\<forall>c \<in> set (comments d'). comment_refs_ok d' c"
    using assms(1) by (simp add: db_inv_def cs)
  moreover have "post_refs_ok d' q" if "q \<in> set (blog_posts d')" for q
  proof (cases "q = p")
    case True
    then show ?thesis using assms(3) by (simp add: post_refs_ok_def us)
  next
    case False
    have "q = p \<or> q \<in> set (blog_posts d)"
      by (rule mem_replace) (rule that [unfolded bp])
    with False have "q \<in> set (blog_posts d)" by simp
    with assms(1) have "post_refs_ok d q" by (simp add: db_inv_def)
    then show ?thesis by (simp add: post_refs_ok_def us)
  qed
  ultimately show ?thesis
    using assms(1) ids titles di by (simp add: db_inv_def us cs)
qed

lemma distinct_map_filter_key: "distinct (map f xs) \<Longrightarrow> distinct (map f (filter P xs))"
  by (induction xs) auto

lemma delete_post_row_inv:
  assumes "db_inv d"
  shows "db_inv (delete_post_row p d)"
proof -
  let ?d' = "delete_post_row p d"
  have c_ids: "map c_id (comments ?d') = map c_id (comments d)"
    by (simp add: delete_post_row_def detach_def)
  have "comment_refs_ok ?d' (detach (p_id p) c)" if "c \<in> set (comments d)" for c
  proof -
    from that assms have ok: "comment_refs_ok d c" by (simp add: db_inv_def)
    show ?thesis
      using ok by (auto simp: comment_refs_ok_def delete_post_row_def detach_def)
  qed
  then have "\<forall>c \<in> set (comments ?d'). comment_refs_ok ?d' c"
    by (auto simp: delete_post_row_def)
  moreover have "\<forall>q \<in> set (blog_posts ?d'). post_refs_ok ?d' q"
    using assms by (auto simp: db_inv_def delete_post_row_def post_refs_ok_def)
  moreover have "distinct (map p_id (blog_posts ?d'))" "distinct (map p_title (blog_posts ?d'))"
    "users ?d' = users d"
    using assms by (simp_all add: db_inv_def delete_post_row_def distinct_map_filter_key)
  ultimately show ?thesis
    using assms c_ids by (simp add: db_inv_def)
qed

subsection \<open>Each handler keeps the tables intact\<close>

lemma register_inv:
  assumes "db_inv d" "register gph salt form sess d = Inr (r, sess', d')"
  shows "db_inv d'"
proof (cases form)
  case None
  with assms show ?thesis by (auto simp: register_def dest: render_template_Inr)
next
  case (Some f)
  show ?thesis
  proof (cases "user_by_email d (rf_email f)")
    case (Some u)
    with assms \<open>form = Some f\<close> show ?thesis by (simp add: register_def)
  next
    case None
    with assms \<open>form = Some f\<close> obtain u
      where "insert_user (rf_email f) (rf_name f) (gph (rf_password f) salt) d = Inr (u, d')"
      by (auto simp: register_def split: sum.splits)
    with assms(1) show ?thesis by (rule insert_user_inv)
  qed
qed

lemma login_db:
  "login cph form sess d = Inr (r, sess', d') \<Longrightarrow> d' = d"
  by (auto simp: login_def dest: render_template_Inr split: option.splits if_splits)

lemma logout_db:
  "logout sess d = Inr (r, sess', d') \<Longrightarrow> d' = d"
  by (auto simp: logout_def split: sum.splits)

lemma show_post_inv:
  assumes "db_inv d" "show_post post_id form sess d = Inr (r, sess', d')"
  shows "db_inv d'"
proof -
  from assms(2) obtain p where p: "get_or_404 p_id (blog_posts d) post_id = Inr p"
    by (cases "get_or_404 p_id (blog_posts d) post_id") (auto simp: show_post_def)
  then have p_in: "p \<in> set (blog_posts d)" by (simp add: get_or_404_Inr)
  show ?thesis
  proof (cases form)
    case None
    with assms p show ?thesis by (auto simp: show_post_def dest: render_template_Inr)
  next
    case (Some f)
    from assms(2) p Some obtain cu where cu: "current_user sess d = Inr cu"
      by (cases "current_user sess d") (auto simp: show_post_def)
    show ?thesis
    proof (cases "is_authenticated cu")
      case False
      with assms p Some cu show ?thesis by (simp add: show_post_def)
    next
      case True
      with assms(2) p Some cu obtain a where a: "as_author sess d = Inr a"
        by (cases "as_author sess d") (auto simp: show_post_def)
      obtain c d1 where ins: "insert_comment (comment_text f) a (Some (p_id p)) d = (c, d1)"
        by (cases "insert_comment (comment_text f) a (Some (p_id p)) d")
      with assms(2) p Some cu True a have "render_template (Post_html p) sess d1 = Inr (r, sess', d')"
        by (simp add: show_post_def)
      then have "d' = d1" by (simp add: render_template_Inr)
      moreover from a have "\<exists>u \<in> set (users d). a = Some (u_id u)"
        by (auto dest: as_author_Inr)
      moreover from p_in have "\<exists>q \<in> set (blog_posts d). Some (p_id p) = Some (p_id q)" by auto
      ultimately show ?thesis using insert_comment_inv [OF assms(1) ins] by simp
    qed
  qed
qed

lemma add_new_post_inv:
  assumes "db_inv d" "add_new_post today form sess d = Inr (r, sess', d')"
  shows "db_inv d'"
proof -
  let ?body = "\<lambda>sess d. case form of
         None \<Rightarrow> render_template Make_post_html sess d
       | Some f \<Rightarrow>
           (case as_author sess d of
              Inl e \<Rightarrow> Inl e
            | Inr author \<Rightarrow>
                (case insert_post (bf_title f) (bf_subtitle f) (bf_body f) (bf_img_url f)
                        author (strftime_B_d_Y today) d of
                   Inl e \<Rightarrow> Inl e
                 | Inr (new_post, d') \<Rightarrow> Inr (Redirect Ep_get_all_posts [], sess, d')))"
  from assms(2) have a: "admin_only ?body sess d = Inr (r, sess', d')"
    by (simp add: add_new_post_def)
  have body: "?body sess d = Inr (r, sess', d')"
    using admin_only_Inr [OF a] by (rule conjunct1)
  show ?thesis
  proof (cases form)
    case None
    with body assms(1) show ?thesis by (auto dest: render_template_Inr)
  next
    case (Some f)
    with body obtain au where au: "as_author sess d = Inr au"
      by (cases "as_author sess d") auto
    with body Some obtain p where
      ins: "insert_post (bf_title f) (bf_subtitle f) (bf_body f) (bf_img_url f) au
              (strftime_B_d_Y today) d = Inr (p, d')"
      by (auto split: sum.splits)
    from au have "\<exists>u \<in> set (users d). au = Some (u_id u)"
      by (auto dest: as_author_Inr)
    with assms(1) ins show ?thesis by (rule insert_post_inv)
  qed
qed

lemma edit_post_Inr:
  assumes "edit_post post_id (Some f) sess d = Inr (r, sess', d')"
  shows "\<exists>p a. get_or_404 p_id (blog_posts d) post_id = Inr p \<and> as_author sess d = Inr a \<and>
           update_post (p\<lparr>p_title := bf_title f, p_subtitle := bf_subtitle f,
                          p_img_url := bf_img_url f, p_author_id := a,
                          p_body := bf_body f\<rparr>) d = Inr d' \<and>
           r = Redirect (Ep_show_post (p_id p)) [] \<and> sess' = sess"
proof -
  from assms obtain p where p: "get_or_404 p_id (blog_posts d) post_id = Inr p"
    by (cases "get_or_404 p_id (blog_posts d) post_id") (auto simp: edit_post_def)
  let ?p1 = "p\<lparr>p_title := bf_title f, p_subtitle := bf_subtitle f, p_img_url := bf_img_url f\<rparr>"
  from assms p obtain x where fl: "autoflush ?p1 sess d = Inr x"
    by (cases "autoflush ?p1 sess d") (auto simp: edit_post_def)
  from assms p fl obtain a where a: "as_author sess d = Inr a"
    by (cases "as_author sess d") (auto simp: edit_post_def)
  let ?p2 = "p\<lparr>p_title := bf_title f, p_subtitle := bf_subtitle f,
                  p_img_url := bf_img_url f, p_author_id := a, p_body := bf_body f\<rparr>"
  from assms p fl a have "update_post ?p2 d = Inr d' \<and>
      r = Redirect (Ep_show_post (p_id p)) [] \<and> sess' = sess"
    by (cases "update_post ?p2 d") (auto simp: edit_post_def)
  with p a show ?thesis by blast
qed

lemma edit_post_inv:
  assumes "db_inv d" "edit_post post_id form sess d = Inr (r, sess', d')"
  shows "db_inv d'"
proof (cases form)
  case None
  from assms(2) obtain p where p: "get_or_404 p_id (blog_posts d) post_id = Inr p"
    by (cases "get_or_404 p_id (blog_posts d) post_id") (auto simp: edit_post_def)
  with None assms show ?thesis by (auto simp: edit_post_def dest: render_template_Inr)
next
  case (Some f)
  with assms(2) have "edit_post post_id (Some f) sess d = Inr (r, sess', d')" by simp
  from edit_post_Inr [OF this] obtain p a where a: "as_author sess d = Inr a"
    and up: "update_post (p\<lparr>p_title := bf_title f, p_subtitle := bf_subtitle f,
                          p_img_url := bf_img_url f, p_author_id := a,
                          p_body := bf_body f\<rparr>) d = Inr d'"
    by blast
  from a have "\<exists>u \<in> set (users d).
      p_author_id (p\<lparr>p_title := bf_title f, p_subtitle := bf_subtitle f,
                          p_img_url := bf_img_url f, p_author_id := a,
                          p_body := bf_body f\<rparr>) = Some (u_id u)"
    by (auto dest: as_author_Inr)
  with assms(1) up show ?thesis by (rule update_post_inv)
qed

lemma delete_post_Inr:
  assumes "delete_post post_id sess d = Inr (r, sess', d')"
  shows "\<exists>p. get_or_404 p_id (blog_posts d) post_id = Inr p \<and> d' = delete_post_row p d
             \<and> r = Redirect Ep_get_all_posts [] \<and> sess' = sess \<and> sess = Some 1"
proof -
  let ?body = "\<lambda>sess d. case get_or_404 p_id (blog_posts d) post_id of
         Inl e \<Rightarrow> Inl e
       | Inr post_to_delete \<Rightarrow>
           Inr (Redirect Ep_get_all_posts [], sess, delete_post_row post_to_delete d)"
  from assms have a: "admin_only ?body sess d = Inr (r, sess', d')"
    by (simp add: delete_post_def)
  note b = admin_only_Inr [OF a]
  from b have "?body sess d = Inr (r, sess', d')" by (rule conjunct1)
  moreover from b have "sess = Some 1" by simp
  ultimately show ?thesis by (auto split: sum.splits)
qed

lemma delete_post_inv:
  assumes "db_inv d" "delete_post post_id sess d = Inr (r, sess', d')"
  shows "db_inv d'"
  using delete_post_Inr [OF assms(2)] delete_post_row_inv [OF assms(1)] by auto

lemma route_inv:
  assumes "db_inv d" "route gph cph req sess d = Inr (r, sess', d')"
  shows "db_inv d'"
proof (cases req)
  case (Req_register salt form)
  with assms show ?thesis by (auto dest: register_inv)
next
  case (Req_login form)
  with assms show ?thesis by (auto dest: login_db)
next
  case Req_logout
  with assms show ?thesis by (auto dest: logout_db)
next
  case Req_get_all_posts
  with assms show ?thesis by (auto simp: get_all_posts_def dest: render_template_Inr)
next
  case (Req_show_post post_id form)
  with assms show ?thesis by (auto dest: show_post_inv)
next
  case (Req_add_new_post today form)
  with assms show ?thesis by (auto dest: add_new_post_inv)
next
  case (Req_edit_post post_id form)
  with assms show ?thesis by (auto dest: edit_post_inv)
next
  case (Req_delete_post post_id)
  with assms show ?thesis by (auto dest: delete_post_inv)
next
  case Req_about
  with assms show ?thesis by (auto simp: about_def dest: render_template_Inr)
next
  case Req_contact
  with assms show ?thesis by (auto simp: contact_def dest: render_template_Inr)
qed

lemma serve_inv: "db_inv (snd st) \<Longrightarrow> db_inv (snd (serve gph cph req st))"
proof -
  assume inv: "db_inv (snd st)"
  show ?thesis
  proof (cases "route gph cph req (fst st) (snd st)")
    case (Inl e)
    with inv show ?thesis by (simp add: serve_def after_def)
  next
    case (Inr x)
    obtain r sess' d' where x: "x = (r, sess', d')" by (cases x)
    with Inr inv have "db_inv d'" by (auto dest: route_inv)
    with Inr x show ?thesis by (simp add: serve_def after_def)
  qed
qed

lemma empty_database_inv: "db_inv empty_database"
  by (simp add: db_inv_def empty_database_def)

lemma fold_serve_inv:
  "db_inv (snd st) \<Longrightarrow> db_inv (snd (fold (serve gph cph) reqs st))"
  by (induction reqs arbitrary: st) (simp_all add: serve_inv)

subsection \<open>The small site, evaluated\<close>

lemmas example_defs =
  example_db_def example_admin_def example_reader_def example_post_def example_comment_def
  example_day_def example_form_def example_requests_def example_db_deleted_def
  example_delete_requests_def example_db_two_posts_def toy_hash_def toy_check_def

lemmas handler_defs =
  run_def serve_def after_def register_def login_def logout_def show_post_def
  add_new_post_def edit_post_def delete_post_def admin_only_def render_template_def
  current_user_def load_user_def as_author_def get_or_404_def select_by_key_def fits_int64_def autoflush_def
  user_by_email_def
  insert_user_def insert_post_def insert_comment_def update_post_def delete_post_row_def
  detach_def next_id_def empty_database_def strftime_B_d_Y_def two_digits_def digit_def
  Let_def

lemma example_run: "run toy_hash toy_check example_requests = (Some 2, example_db)"
  by (simp add: example_defs handler_defs)

lemma example_db_inv: "db_inv example_db"
  by (simp add: db_inv_def post_refs_ok_def comment_refs_ok_def example_defs)

lemma example_admin_session: "current_user (Some 1) example_db = Inr (Logged_in example_admin)"
  by (simp add: example_defs handler_defs)

lemma example_reader_session: "current_user (Some 2) example_db = Inr (Logged_in example_reader)"
  by (simp add: example_defs handler_defs)

lemma example_delete:
  "delete_post 1 (Some 1) example_db = Inr (Redirect Ep_get_all_posts [], Some 1, example_db_deleted)"
  by (simp add: example_defs handler_defs)

lemma count_distinct_key:
  "distinct (map key rows) \<Longrightarrow> k \<in> key ` set rows \<Longrightarrow> length (filter (\<lambda>r. key r = k) rows) = 1"
proof (induction rows)
  case Nil
  then show ?case by simp
next
  case (Cons x xs)
  show ?case
  proof (cases "key x = k")
    case True
    with Cons.prems(1) have "\<forall>y \<in> set xs. key y \<noteq> k" by (auto simp: image_iff)
    then have "filter (\<lambda>r. key r = k) xs = []" by (simp add: filter_empty_conv)
    with True show ?thesis by simp
  next
    case False
    with Cons show ?thesis by auto
  qed
qed

section \<open>Deleting a post\<close>

text \<open>
  C1 (as stated): after the administrator deletes post \<open>p\<close>, no comment whose parent is
  \<open>p\<close> exists any more. This fails on the small site: post 1 is deleted, and the
  comment with id 1, whose parent was post 1, is still in the comments table (its parent
  column is now NULL).
\<close>

theorem delete_post_keeps_comment:
  "delete_post 1 (Some 1) example_db
     = Inr (Redirect Ep_get_all_posts [], Some 1, example_db_deleted) \<and>
   c_post_id example_comment = Some 1 \<and>
   comments example_db = [example_comment] \<and>
   map c_id (comments example_db_deleted) = [c_id example_comment] \<and>
   blog_posts example_db_deleted = []"
  using example_delete by (simp add: example_defs)

text \<open>
  C1 (amended): when \<open>delete_post\<close> succeeds for post id \<open>post_id\<close>, the caller is the
  administrator, no post with that id is left, the users table is unchanged, and the
  comments table has the same rows in the same order, except that every comment whose
  parent was the deleted post now has no parent: the comments are detached, not removed.
\<close>

theorem delete_post_detaches_comments:
  assumes "delete_post post_id sess d = Inr (r, sess', d')"
  shows "sess = Some 1 \<and> sess' = sess \<and>
         post_id \<notin> p_id ` set (blog_posts d') \<and>
         users d' = users d \<and>
         comments d' = map (detach post_id) (comments d) \<and>
         map c_id (comments d') = map c_id (comments d) \<and>
         (\<forall>c \<in> set (comments d).
            if c_post_id c = Some post_id then c\<lparr>c_post_id := None\<rparr> \<in> set (comments d')
            else c \<in> set (comments d'))"
proof -
  from delete_post_Inr [OF assms] obtain p
    where p: "get_or_404 p_id (blog_posts d) post_id = Inr p"
      and d': "d' = delete_post_row p d" and s: "sess' = sess" "sess = Some 1"
    by blast
  from p have id: "p_id p = post_id" by (simp add: get_or_404_Inr)
  have gone: "post_id \<notin> p_id ` set (blog_posts d')"
    by (auto simp: d' delete_post_row_def id)
  have cs: "comments d' = map (detach post_id) (comments d)"
    by (simp add: d' delete_post_row_def id)
  have ids: "map c_id (comments d') = map c_id (comments d)"
    by (simp add: cs detach_def)
  have each: "if c_post_id c = Some post_id then c\<lparr>c_post_id := None\<rparr> \<in> set (comments d')
              else c \<in> set (comments d')" if "c \<in> set (comments d)" for c
  proof -
    from that have "detach post_id c \<in> set (comments d')" by (simp add: cs)
    then show ?thesis by (simp add: detach_def split: if_splits)
  qed
  have us: "users d' = users d" by (simp add: d' delete_post_row_def)
  from s gone us cs ids each show ?thesis by blast
qed

theorem delete_post_detaches_comments_witness:
  "delete_post 1 (Some 1) example_db
     = Inr (Redirect Ep_get_all_posts [], Some 1, example_db_deleted) \<and>
   1 \<notin> p_id ` set (blog_posts example_db_deleted) \<and>
   users example_db_deleted = users example_db \<and>
   comments example_db_deleted = map (detach 1) (comments example_db) \<and>
   example_comment\<lparr>c_post_id := None\<rparr> \<in> set (comments example_db_deleted)"
  using delete_post_detaches_comments [OF example_delete] example_delete
  by (simp add: example_defs)

section \<open>References of comments\<close>

text \<open>
  C2 (as stated): in every reachable state every comment references an existing post as
  its parent. This fails after a deletion: the run of one browser that builds the small
  site and then deletes post 1 ends in a database without posts whose one comment has
  no parent.
\<close>

theorem comment_without_parent_reachable:
  "blog_posts (snd (run toy_hash toy_check example_delete_requests)) = [] \<and>
   comments (snd (run toy_hash toy_check example_delete_requests))
     = [\<lparr>c_id = 1, c_text = ''hi'', c_author_id = Some 2, c_post_id = None\<rparr>]"
  by (simp add: example_defs handler_defs)

text \<open>
  C2 (amended): in every database reached from the empty one by a run of requests, and
  after every request served on a database with intact tables whatever the session, the
  tables are intact: ids, emails and titles are unique, every comment's author is the id
  of one user of the users table, and every comment's parent is either NULL or the id of
  one post of the blog_posts table.
\<close>

theorem comment_references_invariant:
  "db_inv (snd (run gph cph reqs)) \<and>
   (\<forall>c \<in> set (comments (snd (run gph cph reqs))).
      comment_refs_ok (snd (run gph cph reqs)) c) \<and>
   (db_inv d \<longrightarrow> db_inv (snd (serve gph cph req (sess, d))))"
proof -
  have "db_inv (snd (None :: session, empty_database))"
    by (simp add: empty_database_inv)
  then have a: "db_inv (snd (run gph cph reqs))"
    unfolding run_def by (rule fold_serve_inv)
  then have b: "\<forall>c \<in> set (comments (snd (run gph cph reqs))).
      comment_refs_ok (snd (run gph cph reqs)) c"
    by (simp add: db_inv_def)
  have c: "db_inv d \<longrightarrow> db_inv (snd (serve gph cph req (sess, d)))"
    using serve_inv [of "(sess, d)" gph cph req] by simp
  from a b c show ?thesis by blast
qed

theorem comment_references_invariant_witness:
  "db_inv example_db \<and> comment_refs_ok example_db example_comment \<and>
   db_inv (snd (serve toy_hash toy_check (Req_delete_post 1) (Some 1, example_db)))"
  using comment_references_invariant
          [of toy_hash toy_check example_requests example_db "Req_delete_post 1" "Some 1"]
    example_run
  by (simp add: example_db_def)

section \<open>The administrator's routes\<close>

lemma admin_only_forbids_users:
  "current_user sess d = Inr (Logged_in u) \<Longrightarrow> u_id u \<noteq> 1 \<Longrightarrow>
     admin_only f sess d = Inl Forbidden"
  by (simp add: admin_only_def)

text \<open>
  C3: a caller that is not the administrator gets HTTP 403 from \<open>/new-post\<close> and
  \<open>/delete/<id>\<close>. For a logged-in user with another id this is what
  \<open>admin_only\<close> does (\<open>admin_only_forbids_users\<close>). For a caller without a session
  it is not: \<open>current_user\<close> is then \<open>AnonymousUserMixin\<close>, reading its \<open>id\<close> raises
  \<open>AttributeError\<close> before the comparison with 1, and the request ends with HTTP 500
  instead of 403, on every database and for every form.
\<close>

theorem admin_only_anonymous_crashes:
  "delete_post post_id None d = Inl AttributeError \<and>
   add_new_post today form None d = Inl AttributeError \<and>
   status_code AttributeError = 500 \<and>
   serve gph cph (Req_delete_post post_id) (None, d) = (None, d) \<and>
   serve gph cph (Req_add_new_post today form) (None, d) = (None, d)"
  by (simp add: delete_post_def add_new_post_def admin_only_def current_user_def
        serve_def after_def)

section \<open>Creating a post\<close>

lemma duplicate_title_leaves_store:
  assumes "current_user sess d = Inr (Logged_in u)" "u_id u = 1"
    "bf_title f \<in> p_title ` set (blog_posts d)" "distinct (map p_title (blog_posts d))"
  shows "add_new_post today (Some f) sess d = Inl IntegrityError \<and>
         serve gph cph (Req_add_new_post today (Some f)) (sess, d) = (sess, d) \<and>
         length (filter (\<lambda>p. p_title p = bf_title f)
                   (blog_posts (snd (serve gph cph (Req_add_new_post today (Some f)) (sess, d)))))
           = 1"
proof -
  have fail: "add_new_post today (Some f) sess d = Inl IntegrityError"
    using assms(1,2,3)
    by (simp add: add_new_post_def admin_only_admin as_author_Logged_in insert_post_def)
  then have same: "serve gph cph (Req_add_new_post today (Some f)) (sess, d) = (sess, d)"
    by (simp add: serve_def after_def)
  have "length (filter (\<lambda>p. p_title p = bf_title f) (blog_posts d)) = 1"
    using assms(4,3) by (rule count_distinct_key)
  with fail same show ?thesis by simp
qed

text \<open>
  C4: creating a post whose title exists fails with a recoverable, user-facing error, and
  no second post with that title is stored. The second half holds
  (\<open>duplicate_title_leaves_store\<close>: session and database are unchanged). The first
  does not: \<open>add_new_post\<close> has no check of the title, so on the small site the
  administrator's second post titled \<open>Hello\<close> ends in the \<open>IntegrityError\<close> that
  \<open>commit\<close> raises for the unique title column, and the request ends with HTTP 500.
  \<open>register\<close> guards its own unique column by hand: the reader's email a second
  time is answered with a flash message and a redirect.
\<close>

theorem add_new_post_duplicate_title_crashes:
  "add_new_post example_day (Some example_form) (Some 1) example_db = Inl IntegrityError \<and>
   status_code IntegrityError = 500 \<and>
   p_title example_post = bf_title example_form \<and>
   blog_posts example_db = [example_post] \<and>
   serve toy_hash toy_check (Req_add_new_post example_day (Some example_form))
     (Some 1, example_db) = (Some 1, example_db) \<and>
   register toy_hash ''12345678''
     (Some \<lparr>rf_email = ''a@x.com'', rf_password = ''pw2'', rf_name = ''A2''\<rparr>) (Some 1) example_db
     = Inr (Redirect Ep_login
              [''You've already signed up with that email, log in instead!''],
            Some 1, example_db)"
  by (simp add: example_defs handler_defs)

subsection \<open>The date of a new post\<close>

lemma decimal_one_digit: "n < 10 \<Longrightarrow> decimal n = [digit n]"
  by simp

lemma decimal_two_digits:
  assumes "10 \<le> n" "n < 100"
  shows "decimal n = [digit (n div 10), digit (n mod 10)]"
proof -
  have "\<not> n < 10" using assms by simp
  then have "decimal n = decimal (n div 10) @ [digit (n mod 10)]"
    by (subst decimal.simps) simp
  moreover have "n div 10 < 10" using assms by simp
  ultimately show ?thesis by (simp only: decimal_one_digit append.simps)
qed

lemma decimal_four_digits:
  assumes "1000 \<le> n" "n \<le> 9999"
  shows "decimal n = [digit (n div 1000), digit (n div 100 mod 10),
                      digit (n div 10 mod 10), digit (n mod 10)]"
proof -
  have a: "decimal n = decimal (n div 10) @ [digit (n mod 10)]"
    using assms by (subst decimal.simps) simp
  have "\<not> n div 10 < 10" using assms by simp
  then have b: "decimal (n div 10) = decimal (n div 10 div 10) @ [digit (n div 10 mod 10)]"
    by (subst decimal.simps) simp
  have c100: "n div 10 div 10 = n div 100" by (simp add: div_mult2_eq)
  have "10 \<le> n div 100" "n div 100 < 100" using assms by simp_all
  then have c: "decimal (n div 100) = [digit (n div 100 div 10), digit (n div 100 mod 10)]"
    by (rule decimal_two_digits)
  have c1000: "n div 100 div 10 = n div 1000" by (simp add: div_mult2_eq)
  show ?thesis by (simp only: a b c c100 c1000 append.simps)
qed

lemma two_digits_explicit:
  assumes "n < 100"
  shows "two_digits n = [''0123456789'' ! (n div 10), ''0123456789'' ! (n mod 10)]"
proof (cases "n < 10")
  case True
  then show ?thesis by (simp add: two_digits_def digit_def)
next
  case False
  with assms have "decimal n = [digit (n div 10), digit (n mod 10)]"
    by (intro decimal_two_digits) simp_all
  with False show ?thesis by (simp add: two_digits_def digit_def)
qed

lemma strftime_B_d_Y_explicit:
  assumes "day t \<le> 31" "1000 \<le> year t" "year t \<le> 9999"
  shows "strftime_B_d_Y t =
     (case month t of
        January \<Rightarrow> ''January'' | February \<Rightarrow> ''February'' | March \<Rightarrow> ''March''
      | April \<Rightarrow> ''April'' | May \<Rightarrow> ''May'' | June \<Rightarrow> ''June'' | July \<Rightarrow> ''July''
      | August \<Rightarrow> ''August'' | September \<Rightarrow> ''September'' | October \<Rightarrow> ''October''
      | November \<Rightarrow> ''November'' | December \<Rightarrow> ''December'') @
     '' '' @ [''0123456789'' ! (day t div 10), ''0123456789'' ! (day t mod 10)] @ '', '' @
     [''0123456789'' ! (year t div 1000), ''0123456789'' ! (year t div 100 mod 10),
      ''0123456789'' ! (year t div 10 mod 10), ''0123456789'' ! (year t mod 10)]"
proof -
  have m: "month_name (month t) =
     (case month t of
        January \<Rightarrow> ''January'' | February \<Rightarrow> ''February'' | March \<Rightarrow> ''March''
      | April \<Rightarrow> ''April'' | May \<Rightarrow> ''May'' | June \<Rightarrow> ''June'' | July \<Rightarrow> ''July''
      | August \<Rightarrow> ''August'' | September \<Rightarrow> ''September'' | October \<Rightarrow> ''October''
      | November \<Rightarrow> ''November'' | December \<Rightarrow> ''December'')"
    by (cases "month t") simp_all
  have "day t < 100" using assms(1) by simp
  then have dd: "two_digits (day t)
                   = [''0123456789'' ! (day t div 10), ''0123456789'' ! (day t mod 10)]"
    by (rule two_digits_explicit)
  have y: "decimal (year t) =
     [''0123456789'' ! (year t div 1000), ''0123456789'' ! (year t div 100 mod 10),
      ''0123456789'' ! (year t div 10 mod 10), ''0123456789'' ! (year t mod 10)]"
    using decimal_four_digits [OF assms(2,3)] by (simp only: digit_def)
  show ?thesis unfolding strftime_B_d_Y_def m dd y ..
qed

text \<open>
  C9: with a fresh title, the administrator's \<open>add_new_post\<close> succeeds; the new post
  has the next id of the table, and \<open>get_or_404\<close> with that id (as \<open>show_post\<close> does
  on a GET) returns a post with exactly the submitted title, subtitle, body and image
  URL, the administrator (id 1) as its author, and as its date the day of creation
  written as \<open>strftime("%B %d, %Y")\<close> writes it: the English name of the month, a
  space, the day of the month in two decimal digits, a comma and a space, the year in
  four decimal digits. The ids of the table are below the largest key of the store.
\<close>

theorem create_then_get_by_id:
  assumes "current_user sess d = Inr (Logged_in u)" "u_id u = 1"
    "bf_title f \<notin> p_title ` set (blog_posts d)"
    "\<forall>q \<in> set (blog_posts d). p_id q < 9223372036854775807"
    "day today \<le> 31" "1000 \<le> year today" "year today \<le> 9999"
  shows "\<exists>d' p'.
           add_new_post today (Some f) sess d = Inr (Redirect Ep_get_all_posts [], sess, d') \<and>
           get_or_404 p_id (blog_posts d') (next_id (map p_id (blog_posts d))) = Inr p' \<and>
           show_post (next_id (map p_id (blog_posts d))) None sess d'
             = Inr (Render (Post_html p'), sess, d') \<and>
           p' = \<lparr>p_id = next_id (map p_id (blog_posts d)), p_author_id = Some 1,
                  p_title = bf_title f, p_subtitle = bf_subtitle f,
                  p_date =
                    (case month today of
                       January \<Rightarrow> ''January'' | February \<Rightarrow> ''February''
                     | March \<Rightarrow> ''March'' | April \<Rightarrow> ''April'' | May \<Rightarrow> ''May''
                     | June \<Rightarrow> ''June'' | July \<Rightarrow> ''July'' | August \<Rightarrow> ''August''
                     | September \<Rightarrow> ''September'' | October \<Rightarrow> ''October''
                     | November \<Rightarrow> ''November'' | December \<Rightarrow> ''December'') @
                    '' '' @
                    [''0123456789'' ! (day today div 10), ''0123456789'' ! (day today mod 10)] @
                    '', '' @
                    [''0123456789'' ! (year today div 1000),
                     ''0123456789'' ! (year today div 100 mod 10),
                     ''0123456789'' ! (year today div 10 mod 10),
                     ''0123456789'' ! (year today mod 10)],
                  p_body = bf_body f, p_img_url = bf_img_url f\<rparr>"
proof -
  let ?p = "\<lparr>p_id = next_id (map p_id (blog_posts d)), p_author_id = Some 1,
              p_title = bf_title f, p_subtitle = bf_subtitle f,
              p_date = strftime_B_d_Y today, p_body = bf_body f,
              p_img_url = bf_img_url f\<rparr>"
  let ?d' = "d\<lparr>blog_posts := blog_posts d @ [?p]\<rparr>"
  have "insert_post (bf_title f) (bf_subtitle f) (bf_body f) (bf_img_url f) (Some 1)
          (strftime_B_d_Y today) d = Inr (?p, ?d')"
    using assms(3) by (simp add: insert_post_def Let_def)
  then have created: "add_new_post today (Some f) sess d
                        = Inr (Redirect Ep_get_all_posts [], sess, ?d')"
    using assms(1,2) by (simp add: add_new_post_def admin_only_admin as_author_Logged_in)
  have fresh: "p_id ?p \<notin> p_id ` set (blog_posts d)"
    using next_id_fresh [of "map p_id (blog_posts d)"] by simp
  have "fits_int64 (next_id (map p_id (blog_posts d)))"
    by (rule next_id_fits) (use assms(4) in simp)
  then have "fits_int64 (p_id ?p)" by simp
  with fresh have "get_or_404 p_id (blog_posts d @ [?p]) (p_id ?p) = Inr ?p"
    by (rule get_or_404_appended)
  then have got: "get_or_404 p_id (blog_posts ?d') (next_id (map p_id (blog_posts d))) = Inr ?p"
    by simp
  have "current_user sess ?d' = current_user sess d"
    by (rule current_user_same_users) simp
  with assms(1) got
  have shown: "show_post (next_id (map p_id (blog_posts d))) None sess ?d'
                 = Inr (Render (Post_html ?p), sess, ?d')"
    by (simp add: show_post_def render_template_def)
  have peq: "?p = \<lparr>p_id = next_id (map p_id (blog_posts d)), p_author_id = Some 1,
                  p_title = bf_title f, p_subtitle = bf_subtitle f,
                  p_date =
                    (case month today of
                       January \<Rightarrow> ''January'' | February \<Rightarrow> ''February''
                     | March \<Rightarrow> ''March'' | April \<Rightarrow> ''April'' | May \<Rightarrow> ''May''
                     | June \<Rightarrow> ''June'' | July \<Rightarrow> ''July'' | August \<Rightarrow> ''August''
                     | September \<Rightarrow> ''September'' | October \<Rightarrow> ''October''
                     | November \<Rightarrow> ''November'' | December \<Rightarrow> ''December'') @
                    '' '' @
                    [''0123456789'' ! (day today div 10), ''0123456789'' ! (day today mod 10)] @
                    '', '' @
                    [''0123456789'' ! (year today div 1000),
                     ''0123456789'' ! (year today div 100 mod 10),
                     ''0123456789'' ! (year today div 10 mod 10),
                     ''0123456789'' ! (year today mod 10)],
                  p_body = bf_body f, p_img_url = bf_img_url f\<rparr>"
    by (simp only: strftime_B_d_Y_explicit [OF assms(5,6,7)])
  show ?thesis
    by (rule exI [of _ ?d'], rule exI [of _ ?p]) (intro conjI created got shown peq)
qed

theorem create_then_get_by_id_witness:
  "\<exists>d' p'. add_new_post example_day
           (Some \<lparr>bf_title = ''T'', bf_subtitle = ''S'', bf_body = ''B'', bf_img_url = ''U''\<rparr>)
           (Some 1) example_db = Inr (Redirect Ep_get_all_posts [], Some 1, d') \<and>
        get_or_404 p_id (blog_posts d') 2 = Inr p' \<and>
        p' = \<lparr>p_id = 2, p_author_id = Some 1, p_title = ''T'', p_subtitle = ''S'',
               p_date = ''June 03, 2025'', p_body = ''B'', p_img_url = ''U''\<rparr>"
proof -
  have adm: "u_id example_admin = 1" by (simp add: example_admin_def)
  have fr: "bf_title \<lparr>bf_title = ''T'', bf_subtitle = ''S'', bf_body = ''B'', bf_img_url = ''U''\<rparr>
                   \<notin> p_title ` set (blog_posts example_db)"
    by (simp add: example_defs)
  have ids: "\<forall>q \<in> set (blog_posts example_db). p_id q < 9223372036854775807"
    by (simp add: example_defs)
  have dy: "day example_day \<le> 31" "1000 \<le> year example_day" "year example_day \<le> 9999"
    by (simp_all add: example_day_def)
  have nid: "next_id (map p_id (blog_posts example_db)) = 2"
    by (simp add: example_defs next_id_def)
  from create_then_get_by_id [OF example_admin_session adm fr ids dy]
  obtain d' p' where
    "add_new_post example_day
       (Some \<lparr>bf_title = ''T'', bf_subtitle = ''S'', bf_body = ''B'', bf_img_url = ''U''\<rparr>)
       (Some 1) example_db = Inr (Redirect Ep_get_all_posts [], Some 1, d')"
    "get_or_404 p_id (blog_posts d') (next_id (map p_id (blog_posts example_db))) = Inr p'"
    "p' = \<lparr>p_id = next_id (map p_id (blog_posts example_db)), p_author_id = Some 1,
            p_title = ''T'', p_subtitle = ''S'', p_date = ''June 03, 2025'',
            p_body = ''B'', p_img_url = ''U''\<rparr>"
    by (auto simp: example_day_def)
  then have "add_new_post example_day
           (Some \<lparr>bf_title = ''T'', bf_subtitle = ''S'', bf_body = ''B'', bf_img_url = ''U''\<rparr>)
           (Some 1) example_db = Inr (Redirect Ep_get_all_posts [], Some 1, d') \<and>
        get_or_404 p_id (blog_posts d') 2 = Inr p' \<and>
        p' = \<lparr>p_id = 2, p_author_id = Some 1, p_title = ''T'', p_subtitle = ''S'',
               p_date = ''June 03, 2025'', p_body = ''B'', p_img_url = ''U''\<rparr>"
    by (simp add: nid)
  then show ?thesis by blast
qed

section \<open>Registration and login\<close>

text \<open>
  C5: registering with an email of the users table flashes the message of
  \<open>register\<close> and redirects to the login page; the database and the caller's session
  are unchanged, so with unique emails before there is exactly one user with that email
  afterwards. Registering with a fresh email appends one user (next id, the submitted
  email and name, the password column holding \<open>generate_password_hash\<close> of the
  password and the salt), leaves posts and comments alone, and the session names the new
  user: \<open>current_user\<close> resolves to it.
\<close>

theorem register_duplicate_or_fresh:
  "(rf_email f \<in> u_email ` set (users d) \<longrightarrow>
      register gph salt (Some f) sess d
        = Inr (Redirect Ep_login
                 [''You've already signed up with that email, log in instead!''], sess, d) \<and>
      (distinct (map u_email (users d)) \<longrightarrow>
         length (filter (\<lambda>u. u_email u = rf_email f) (users d)) = 1)) \<and>
   (rf_email f \<notin> u_email ` set (users d) \<longrightarrow>
      (\<exists>u d'. register gph salt (Some f) sess d
                 = Inr (Redirect Ep_get_all_posts [], Some (u_id u), d') \<and>
              u = \<lparr>u_id = next_id (map u_id (users d)), u_email = rf_email f,
                    u_password = gph (rf_password f) salt, u_name = rf_name f\<rparr> \<and>
              users d' = users d @ [u] \<and>
              blog_posts d' = blog_posts d \<and> comments d' = comments d \<and>
              current_user (Some (u_id u)) d' = Inr (Logged_in u)))"
proof (cases "rf_email f \<in> u_email ` set (users d)")
  case True
  then obtain u0 where "user_by_email d (rf_email f) = Some u0"
    using user_by_email_None [of d "rf_email f"] by (cases "user_by_email d (rf_email f)") auto
  then have "register gph salt (Some f) sess d
        = Inr (Redirect Ep_login
                 [''You've already signed up with that email, log in instead!''], sess, d)"
    by (simp add: register_def)
  moreover have "length (filter (\<lambda>u. u_email u = rf_email f) (users d)) = 1"
    if "distinct (map u_email (users d))"
    using that True by (rule count_distinct_key)
  ultimately show ?thesis using True by simp
next
  case False
  let ?u = "\<lparr>u_id = next_id (map u_id (users d)), u_email = rf_email f,
              u_password = gph (rf_password f) salt, u_name = rf_name f\<rparr>"
  let ?d' = "d\<lparr>users := users d @ [?u]\<rparr>"
  from False have none: "user_by_email d (rf_email f) = None"
    by (simp add: user_by_email_None)
  have "insert_user (rf_email f) (rf_name f) (gph (rf_password f) salt) d = Inr (?u, ?d')"
    using False by (simp add: insert_user_def Let_def)
  with none have reg: "register gph salt (Some f) sess d
                 = Inr (Redirect Ep_get_all_posts [], Some (u_id ?u), ?d')"
    by (simp add: register_def)
  have "u_id ?u \<notin> u_id ` set (users d)"
    using next_id_fresh [of "map u_id (users d)"] by simp
  then have "select_by_key u_id (users d @ [?u]) (u_id ?u) = Inr ?u"
    by (rule select_by_key_appended)
  then have cur: "current_user (Some (u_id ?u)) ?d' = Inr (Logged_in ?u)"
    by (simp add: current_user_def load_user_def)
  have "\<exists>u d'. register gph salt (Some f) sess d
                 = Inr (Redirect Ep_get_all_posts [], Some (u_id u), d') \<and>
              u = ?u \<and> users d' = users d @ [u] \<and>
              blog_posts d' = blog_posts d \<and> comments d' = comments d \<and>
              current_user (Some (u_id u)) d' = Inr (Logged_in u)"
    by (rule exI [of _ ?u], rule exI [of _ ?d']) (use reg cur in simp)
  with False show ?thesis by simp
qed

theorem register_duplicate_or_fresh_witness:
  "register toy_hash ''12345678''
     (Some \<lparr>rf_email = ''a@x.com'', rf_password = ''pw2'', rf_name = ''A2''\<rparr>) None example_db
     = Inr (Redirect Ep_login
              [''You've already signed up with that email, log in instead!''], None, example_db) \<and>
   length (filter (\<lambda>u. u_email u = ''a@x.com'') (users example_db)) = 1 \<and>
   (\<exists>d'. register toy_hash ''12345678''
            (Some \<lparr>rf_email = ''b@x.com'', rf_password = ''pw'', rf_name = ''B''\<rparr>) None example_db
            = Inr (Redirect Ep_get_all_posts [], Some 3, d') \<and>
          users d' = users example_db @
            [\<lparr>u_id = 3, u_email = ''b@x.com'', u_password = ''12345678$pw'', u_name = ''B''\<rparr>] \<and>
          current_user (Some 3) d'
            = Inr (Logged_in \<lparr>u_id = 3, u_email = ''b@x.com'', u_password = ''12345678$pw'',
                               u_name = ''B''\<rparr>))"
proof -
  have dup: "rf_email \<lparr>rf_email = ''a@x.com'', rf_password = ''pw2'', rf_name = ''A2''\<rparr>
               \<in> u_email ` set (users example_db)"
    by (simp add: example_defs)
  have dist: "distinct (map u_email (users example_db))"
    by (simp add: example_defs)
  have fresh: "rf_email \<lparr>rf_email = ''b@x.com'', rf_password = ''pw'', rf_name = ''B''\<rparr>
               \<notin> u_email ` set (users example_db)"
    by (simp add: example_defs)
  have nid: "next_id (map u_id (users example_db)) = 3"
    by (simp add: example_defs next_id_def)
  note w1 = register_duplicate_or_fresh
    [of "\<lparr>rf_email = ''a@x.com'', rf_password = ''pw2'', rf_name = ''A2''\<rparr>" example_db
        toy_hash "''12345678''" None]
  note w2 = register_duplicate_or_fresh
    [of "\<lparr>rf_email = ''b@x.com'', rf_password = ''pw'', rf_name = ''B''\<rparr>" example_db
        toy_hash "''12345678''" None]
  from w1 dup dist have a: "register toy_hash ''12345678''
     (Some \<lparr>rf_email = ''a@x.com'', rf_password = ''pw2'', rf_name = ''A2''\<rparr>) None example_db
     = Inr (Redirect Ep_login
              [''You've already signed up with that email, log in instead!''], None, example_db)"
    and b: "length (filter (\<lambda>u. u_email u = ''a@x.com'') (users example_db)) = 1"
    by simp_all
  from w2 fresh nid have c: "\<exists>d'. register toy_hash ''12345678''
            (Some \<lparr>rf_email = ''b@x.com'', rf_password = ''pw'', rf_name = ''B''\<rparr>) None example_db
            = Inr (Redirect Ep_get_all_posts [], Some 3, d') \<and>
          users d' = users example_db @
            [\<lparr>u_id = 3, u_email = ''b@x.com'', u_password = ''12345678$pw'', u_name = ''B''\<rparr>] \<and>
          current_user (Some 3) d'
            = Inr (Logged_in \<lparr>u_id = 3, u_email = ''b@x.com'', u_password = ''12345678$pw'',
                               u_name = ''B''\<rparr>)"
    by (auto simp: toy_hash_def)
  from a b c show ?thesis by blast
qed

text \<open>
  C6: \<open>login\<close> with an email that no user has flashes "That email does not exist"
  and redirects to the login page; with the email of a user whose stored hash does not
  verify the password it flashes "Password incorrect"; with a password that verifies it
  puts the user's id into the session, so that \<open>current_user\<close> resolves to that user.
  No request to \<open>/login\<close> changes the database, whatever it submits.
\<close>

theorem login_outcomes:
  "(lf_email f \<notin> u_email ` set (users d) \<longrightarrow>
      login cph (Some f) sess d
        = Inr (Redirect Ep_login [''That email does not exist, please try again.''], sess, d)) \<and>
   (u \<in> set (users d) \<and> u_email u = lf_email f \<and> distinct (map u_email (users d)) \<longrightarrow>
      (if \<not> cph (u_password u) (lf_password f)
       then login cph (Some f) sess d
              = Inr (Redirect Ep_login [''Password incorrect, please try again.''], sess, d)
       else login cph (Some f) sess d = Inr (Redirect Ep_get_all_posts [], Some (u_id u), d) \<and>
            (distinct (map u_id (users d)) \<longrightarrow>
               current_user (Some (u_id u)) d = Inr (Logged_in u)))) \<and>
   snd (serve gph cph (Req_login form) (sess, d)) = d"
proof -
  have a: "login cph (Some f) sess d
        = Inr (Redirect Ep_login [''That email does not exist, please try again.''], sess, d)"
    if "lf_email f \<notin> u_email ` set (users d)"
    using that by (simp add: login_def user_by_email_None [symmetric])
  have b: "if \<not> cph (u_password u) (lf_password f)
       then login cph (Some f) sess d
              = Inr (Redirect Ep_login [''Password incorrect, please try again.''], sess, d)
       else login cph (Some f) sess d = Inr (Redirect Ep_get_all_posts [], Some (u_id u), d) \<and>
            (distinct (map u_id (users d)) \<longrightarrow>
               current_user (Some (u_id u)) d = Inr (Logged_in u))"
    if "u \<in> set (users d)" "u_email u = lf_email f" "distinct (map u_email (users d))"
  proof -
    have "find (\<lambda>x. u_email x = u_email u) (users d) = Some u"
      using that(3,1) by (rule find_distinct_key)
    then have "user_by_email d (lf_email f) = Some u"
      by (simp add: user_by_email_def that(2))
    then show ?thesis
      using that(1) by (simp add: login_def current_user_of_row)
  qed
  have c: "snd (serve gph cph (Req_login form) (sess, d)) = d"
  proof (cases "login cph form sess d")
    case (Inl e)
    then show ?thesis by (simp add: serve_def after_def)
  next
    case (Inr x)
    obtain r sess' d' where "x = (r, sess', d')" by (cases x)
    with Inr show ?thesis by (auto simp: serve_def after_def dest: login_db)
  qed
  from a b c show ?thesis by blast
qed

theorem login_outcomes_witness:
  "login toy_check (Some \<lparr>lf_email = ''nobody@x.com'', lf_password = ''pw''\<rparr>) None example_db
     = Inr (Redirect Ep_login [''That email does not exist, please try again.''], None, example_db) \<and>
   login toy_check (Some \<lparr>lf_email = ''a@x.com'', lf_password = ''wrong''\<rparr>) None example_db
     = Inr (Redirect Ep_login [''Password incorrect, please try again.''], None, example_db) \<and>
   login toy_check (Some \<lparr>lf_email = ''a@x.com'', lf_password = ''pw''\<rparr>) None example_db
     = Inr (Redirect Ep_get_all_posts [], Some 2, example_db) \<and>
   current_user (Some 2) example_db = Inr (Logged_in example_reader)"
proof -
  have mem: "example_reader \<in> set (users example_db)" and em: "u_email example_reader = ''a@x.com''"
    and de: "distinct (map u_email (users example_db))"
    and di: "distinct (map u_id (users example_db))"
    and no: "''nobody@x.com'' \<notin> u_email ` set (users example_db)"
    and bad: "\<not> toy_check (u_password example_reader) ''wrong''"
    and good: "toy_check (u_password example_reader) ''pw''"
    and i: "u_id example_reader = 2"
    by (simp_all add: example_defs)
  note w1 = login_outcomes
    [of "\<lparr>lf_email = ''nobody@x.com'', lf_password = ''pw''\<rparr>" example_db toy_check None
        example_reader toy_hash None]
  note w2 = login_outcomes
    [of "\<lparr>lf_email = ''a@x.com'', lf_password = ''wrong''\<rparr>" example_db toy_check None
        example_reader toy_hash None]
  note w3 = login_outcomes
    [of "\<lparr>lf_email = ''a@x.com'', lf_password = ''pw''\<rparr>" example_db toy_check None
        example_reader toy_hash None]
  from w1 no have a: "login toy_check (Some \<lparr>lf_email = ''nobody@x.com'', lf_password = ''pw''\<rparr>)
       None example_db
     = Inr (Redirect Ep_login [''That email does not exist, please try again.''], None, example_db)"
    by simp
  from w2 mem em de bad
  have b: "login toy_check (Some \<lparr>lf_email = ''a@x.com'', lf_password = ''wrong''\<rparr>) None example_db
     = Inr (Redirect Ep_login [''Password incorrect, please try again.''], None, example_db)"
    by simp
  from w3 mem em de di good i
  have c: "login toy_check (Some \<lparr>lf_email = ''a@x.com'', lf_password = ''pw''\<rparr>) None example_db
     = Inr (Redirect Ep_get_all_posts [], Some 2, example_db) \<and>
     current_user (Some 2) example_db = Inr (Logged_in example_reader)"
    by simp
  from a b c show ?thesis by blast
qed

section \<open>Sessions of users that are gone\<close>

text \<open>
  C10 (as stated): every request with a session that names a user id without a row ends
  with HTTP 404 when the current user is resolved. One request does not: a POST to
  \<open>/edit-post/2\<close> on the site with two posts, submitting the title of post 1. The
  title is assigned before \<open>post.author = current_user\<close>; resolving the user flushes
  it, and the request ends with \<open>IntegrityError\<close> (HTTP 500), although user 7 does not
  exist.
\<close>

theorem stale_session_edit_collision:
  "edit_post 2 (Some example_form) (Some 7) example_db_two_posts = Inl IntegrityError \<and>
   status_code IntegrityError = 500 \<and>
   current_user (Some 7) example_db_two_posts = Inl Not_Found \<and>
   map u_id (users example_db_two_posts) = [1, 2] \<and>
   map p_title (blog_posts example_db_two_posts) = [''Hello'', ''World''] \<and>
   bf_title example_form = ''Hello''"
  by (simp add: example_defs handler_defs)

text \<open>
  C10 (amended): a session that names a user id without a row in the users table does
  not make the caller anonymous: \<open>load_user\<close> is \<open>get_or_404\<close>, so resolving
  \<open>current_user\<close> aborts with HTTP 404, and with it every rendered page, every
  \<open>@admin_only\<close> route, every request to \<open>/post/<id>\<close>, and every request to
  \<open>/edit-post/<id>\<close> that does not submit a title owned by another post (for ids
  that the store can bind). When the id has a row, \<open>current_user\<close> resolves to a user
  with that id.
\<close>

theorem stale_session_not_found:
  "(uid \<notin> u_id ` set (users d) \<longrightarrow>
      current_user (Some uid) d = Inl Not_Found \<and> status_code Not_Found = 404 \<and>
      current_user (Some uid) d \<noteq> Inr AnonymousUserMixin \<and>
      render_template pg (Some uid) d = Inl Not_Found \<and>
      admin_only h (Some uid) d = Inl Not_Found \<and>
      (fits_int64 post_id \<longrightarrow>
         show_post post_id cform (Some uid) d = Inl Not_Found \<and>
         edit_post post_id None (Some uid) d = Inl Not_Found \<and>
         (bf_title f \<notin> set (map p_title (filter (\<lambda>q. p_id q \<noteq> post_id) (blog_posts d))) \<longrightarrow>
            edit_post post_id (Some f) (Some uid) d = Inl Not_Found))) \<and>
   (uid \<in> u_id ` set (users d) \<longrightarrow>
      (\<exists>u. current_user (Some uid) d = Inr (Logged_in u) \<and> u_id u = uid \<and> u \<in> set (users d)))"
proof (cases "uid \<in> u_id ` set (users d)")
  case False
  then have cu: "current_user (Some uid) d = Inl Not_Found"
    by (simp add: current_user_def load_user_def select_by_key_missing)
  then have rt: "render_template pg' (Some uid) d = Inl Not_Found" for pg'
    by (simp add: render_template_def)
  have au: "as_author (Some uid) d = Inl Not_Found"
    using cu by (simp add: as_author_def)
  have posts: "show_post post_id cform (Some uid) d = Inl Not_Found \<and>
         edit_post post_id None (Some uid) d = Inl Not_Found \<and>
         (bf_title f \<notin> set (map p_title (filter (\<lambda>q. p_id q \<noteq> post_id) (blog_posts d))) \<longrightarrow>
            edit_post post_id (Some f) (Some uid) d = Inl Not_Found)"
    if fits: "fits_int64 post_id"
  proof (cases "get_or_404 p_id (blog_posts d) post_id")
    case (Inl e)
    with fits have "e = Not_Found"
      by (auto simp: get_or_404_def dest: select_by_key_Inl)
    with Inl show ?thesis by (simp add: show_post_def edit_post_def)
  next
    case (Inr p)
    then have id: "p_id p = post_id" by (simp add: get_or_404_Inr)
    have sp: "show_post post_id cform (Some uid) d = Inl Not_Found"
      using Inr cu rt by (cases cform) (simp_all add: show_post_def)
    have e0: "edit_post post_id None (Some uid) d = Inl Not_Found"
      using Inr rt by (simp add: edit_post_def)
    have e1: "edit_post post_id (Some f) (Some uid) d = Inl Not_Found"
      if "bf_title f \<notin> set (map p_title (filter (\<lambda>q. p_id q \<noteq> post_id) (blog_posts d)))"
    proof -
      have "autoflush (p\<lparr>p_title := bf_title f, p_subtitle := bf_subtitle f,
                          p_img_url := bf_img_url f\<rparr>) (Some uid) d = Inr ()"
        using that by (simp add: autoflush_def update_post_def id)
      with Inr au show ?thesis by (simp add: edit_post_def)
    qed
    from sp e0 e1 show ?thesis by blast
  qed
  from False cu rt posts show ?thesis
    by (simp add: admin_only_def)
next
  case True
  obtain u where u: "select_by_key u_id (users d) uid = Inr u"
  proof (cases "select_by_key u_id (users d) uid")
    case (Inl e)
    with True show ?thesis by (auto dest: select_by_key_Inl)
  next
    case (Inr u)
    then show ?thesis by (rule that)
  qed
  then have "current_user (Some uid) d = Inr (Logged_in u)"
    by (simp add: current_user_def load_user_def)
  moreover from u have "u_id u = uid" "u \<in> set (users d)"
    by (simp_all add: select_by_key_Inr)
  ultimately show ?thesis using True by blast
qed

theorem stale_session_not_found_witness:
  "current_user (Some 7) example_db = Inl Not_Found \<and>
   render_template (Index_html []) (Some 7) example_db = Inl Not_Found \<and>
   delete_post 1 (Some 7) example_db = Inl Not_Found \<and>
   show_post 1 (Some \<lparr>comment_text = ''hi''\<rparr>) (Some 7) example_db = Inl Not_Found \<and>
   edit_post 1 (Some \<lparr>bf_title = ''New'', bf_subtitle = ''S'', bf_body = ''B'', bf_img_url = ''U''\<rparr>)
     (Some 7) example_db = Inl Not_Found \<and>
   (\<exists>u. current_user (Some 2) example_db = Inr (Logged_in u) \<and> u_id u = 2)"
proof -
  have stale: "7 \<notin> u_id ` set (users example_db)" and live: "2 \<in> u_id ` set (users example_db)"
    and fits: "fits_int64 1"
    and free: "bf_title \<lparr>bf_title = ''New'', bf_subtitle = ''S'', bf_body = ''B'', bf_img_url = ''U''\<rparr>
       \<notin> set (map p_title (filter (\<lambda>q. p_id q \<noteq> 1) (blog_posts example_db)))"
    by (simp_all add: example_defs fits_int64_def)
  note w1 = stale_session_not_found
    [of 7 example_db _ _ 1 "Some \<lparr>comment_text = ''hi''\<rparr>"
        "\<lparr>bf_title = ''New'', bf_subtitle = ''S'', bf_body = ''B'', bf_img_url = ''U''\<rparr>"]
  note w2 = stale_session_not_found [of 2 example_db]
  from w1 [of "Index_html []"] stale
  have a: "current_user (Some 7) example_db = Inl Not_Found"
    and b: "render_template (Index_html []) (Some 7) example_db = Inl Not_Found"
    by simp_all
  from w1 stale have c: "delete_post 1 (Some 7) example_db = Inl Not_Found"
    by (simp add: delete_post_def)
  from w1 stale fits free
  have d: "show_post 1 (Some \<lparr>comment_text = ''hi''\<rparr>) (Some 7) example_db = Inl Not_Found"
    and e: "edit_post 1
       (Some \<lparr>bf_title = ''New'', bf_subtitle = ''S'', bf_body = ''B'', bf_img_url = ''U''\<rparr>)
       (Some 7) example_db = Inl Not_Found"
    by simp_all
  from w2 live have g: "\<exists>u. current_user (Some 2) example_db = Inr (Logged_in u) \<and> u_id u = 2"
    by blast
  from a b c d e g show ?thesis by blast
qed

section \<open>Editing a post\<close>

lemma mem_replaced:
  "p \<in> set ps \<Longrightarrow> p_id p' = p_id p \<Longrightarrow>
     p' \<in> set (map (\<lambda>q. if p_id q = p_id p' then p' else q) ps)"
  by (induction ps) auto

text \<open>
  C7 (as stated): every caller can overwrite an existing post with any title, and an id
  that no post has gives HTTP 404. A caller without a session cannot: \<open>post.author =
  current_user\<close> needs a mapped user, the request on the small site ends with
  \<open>AttributeError\<close> and post 1 keeps its title. A logged-in caller cannot give post 2
  the title of post 1 either: \<open>IntegrityError\<close>. And the id \<open>2^63\<close>, which no post
  has, is answered with \<open>OverflowError\<close>, not with HTTP 404.
\<close>

theorem edit_post_failures:
  "edit_post 1 (Some \<lparr>bf_title = ''New'', bf_subtitle = ''S'', bf_body = ''B'', bf_img_url = ''U''\<rparr>)
     None example_db = Inl AttributeError \<and>
   serve toy_hash toy_check
     (Req_edit_post 1
        (Some \<lparr>bf_title = ''New'', bf_subtitle = ''S'', bf_body = ''B'', bf_img_url = ''U''\<rparr>))
     (None, example_db) = (None, example_db) \<and>
   map p_title (blog_posts example_db) = [''Hello''] \<and>
   edit_post 2 (Some example_form) (Some 2) example_db_two_posts = Inl IntegrityError \<and>
   map p_title (blog_posts example_db_two_posts) = [''Hello'', ''World''] \<and>
   edit_post 9223372036854775808 None (Some 2) example_db = Inl OverflowError \<and>
   status_code OverflowError = 500"
  by (simp add: example_defs handler_defs)

text \<open>
  C7 (amended): \<open>edit_post\<close> with an id that no post has and that the store can bind
  (a signed 64-bit integer) fails with HTTP 404, for every caller and form. For an
  existing post \<open>p\<close>, a logged-in caller \<open>u\<close> (any
  user: the route has no \<open>@admin_only\<close>) and a title that no other post has, it
  succeeds: the post with \<open>p\<close>'s id then has the submitted title, subtitle, body and
  image URL, \<open>u\<close> as author, and \<open>p\<close>'s id and date; the ids of the table, every other
  post, the users and the comments are unchanged.
\<close>

theorem edit_post_overwrites:
  "(post_id \<notin> p_id ` set (blog_posts d) \<and> fits_int64 post_id \<longrightarrow>
      edit_post post_id form sess d = Inl Not_Found) \<and>
   (p \<in> set (blog_posts d) \<and> distinct (map p_id (blog_posts d)) \<and> fits_int64 (p_id p) \<and>
    current_user sess d = Inr (Logged_in u) \<and>
    bf_title f \<notin> set (map p_title (filter (\<lambda>q. p_id q \<noteq> p_id p) (blog_posts d))) \<longrightarrow>
      (\<exists>d'. edit_post (p_id p) (Some f) sess d = Inr (Redirect (Ep_show_post (p_id p)) [], sess, d') \<and>
            get_or_404 p_id (blog_posts d') (p_id p)
              = Inr \<lparr>p_id = p_id p, p_author_id = Some (u_id u), p_title = bf_title f,
                     p_subtitle = bf_subtitle f, p_date = p_date p, p_body = bf_body f,
                     p_img_url = bf_img_url f\<rparr> \<and>
            map p_id (blog_posts d') = map p_id (blog_posts d) \<and>
            (\<forall>q \<in> set (blog_posts d). p_id q \<noteq> p_id p \<longrightarrow> q \<in> set (blog_posts d')) \<and>
            users d' = users d \<and> comments d' = comments d))"
proof -
  have a: "edit_post post_id form sess d = Inl Not_Found"
    if "post_id \<notin> p_id ` set (blog_posts d)" "fits_int64 post_id"
    using that by (simp add: edit_post_def get_or_404_missing)
  have b: "\<exists>d'. edit_post (p_id p) (Some f) sess d = Inr (Redirect (Ep_show_post (p_id p)) [], sess, d') \<and>
            get_or_404 p_id (blog_posts d') (p_id p)
              = Inr \<lparr>p_id = p_id p, p_author_id = Some (u_id u), p_title = bf_title f,
                     p_subtitle = bf_subtitle f, p_date = p_date p, p_body = bf_body f,
                     p_img_url = bf_img_url f\<rparr> \<and>
            map p_id (blog_posts d') = map p_id (blog_posts d) \<and>
            (\<forall>q \<in> set (blog_posts d). p_id q \<noteq> p_id p \<longrightarrow> q \<in> set (blog_posts d')) \<and>
            users d' = users d \<and> comments d' = comments d"
    if mem: "p \<in> set (blog_posts d)" and dist: "distinct (map p_id (blog_posts d))"
      and fits: "fits_int64 (p_id p)"
      and cu: "current_user sess d = Inr (Logged_in u)"
      and fresh: "bf_title f \<notin> set (map p_title (filter (\<lambda>q. p_id q \<noteq> p_id p) (blog_posts d)))"
  proof -
    let ?p' = "p\<lparr>p_title := bf_title f, p_subtitle := bf_subtitle f,
                  p_img_url := bf_img_url f, p_author_id := Some (u_id u), p_body := bf_body f\<rparr>"
    let ?ps' = "map (\<lambda>q. if p_id q = p_id ?p' then ?p' else q) (blog_posts d)"
    let ?d' = "d\<lparr>blog_posts := ?ps'\<rparr>"
    have lit: "?p' = \<lparr>p_id = p_id p, p_author_id = Some (u_id u), p_title = bf_title f,
                     p_subtitle = bf_subtitle f, p_date = p_date p, p_body = bf_body f,
                     p_img_url = bf_img_url f\<rparr>"
      by (cases p) simp
    have got: "get_or_404 p_id (blog_posts d) (p_id p) = Inr p"
      using dist mem fits by (rule get_or_404_distinct)
    have "p_title ?p' \<notin> set (map p_title (filter (\<lambda>q. p_id q \<noteq> p_id ?p') (blog_posts d)))"
      using fresh by simp
    then have up: "update_post ?p' d = Inr ?d'"
      by (simp add: update_post_def)
    have fl: "autoflush (p\<lparr>p_title := bf_title f, p_subtitle := bf_subtitle f,
                            p_img_url := bf_img_url f\<rparr>) sess d = Inr ()"
      using fresh by (cases sess) (simp_all add: autoflush_def update_post_def)
    have ed: "edit_post (p_id p) (Some f) sess d
                = Inr (Redirect (Ep_show_post (p_id p)) [], sess, ?d')"
      using got up fl by (simp add: edit_post_def as_author_Logged_in [OF cu])
    have ids: "map p_id ?ps' = map p_id (blog_posts d)"
      by (rule map_replace_ids)
    have "?p' \<in> set ?ps'"
      using mem by (rule mem_replaced) simp
    moreover have "distinct (map p_id ?ps')"
      using dist by (simp only: ids)
    moreover have "fits_int64 (p_id ?p')" using fits by simp
    ultimately have "get_or_404 p_id ?ps' (p_id ?p') = Inr ?p'"
      by (intro get_or_404_distinct)
    then have g: "get_or_404 p_id (blog_posts ?d') (p_id p) = Inr ?p'"
      by simp
    have others: "q \<in> set (blog_posts ?d')" if "q \<in> set (blog_posts d)" "p_id q \<noteq> p_id p" for q
    proof -
      have "(\<lambda>q. if p_id q = p_id ?p' then ?p' else q) q \<in> set ?ps'"
        using that(1) by (simp only: set_map) (rule imageI)
      with that(2) show ?thesis by simp
    qed
    have "edit_post (p_id p) (Some f) sess d = Inr (Redirect (Ep_show_post (p_id p)) [], sess, ?d') \<and>
            get_or_404 p_id (blog_posts ?d') (p_id p)
              = Inr \<lparr>p_id = p_id p, p_author_id = Some (u_id u), p_title = bf_title f,
                     p_subtitle = bf_subtitle f, p_date = p_date p, p_body = bf_body f,
                     p_img_url = bf_img_url f\<rparr> \<and>
            map p_id (blog_posts ?d') = map p_id (blog_posts d) \<and>
            (\<forall>q \<in> set (blog_posts d). p_id q \<noteq> p_id p \<longrightarrow> q \<in> set (blog_posts ?d')) \<and>
            users ?d' = users d \<and> comments ?d' = comments d"
      using ed g ids others unfolding lit [symmetric] by simp
    then show ?thesis by (rule exI)
  qed
  from a b show ?thesis by blast
qed

theorem edit_post_overwrites_witness:
  "edit_post 9 None (Some 2) example_db = Inl Not_Found \<and>
   (\<exists>d'. edit_post 1
            (Some \<lparr>bf_title = ''New'', bf_subtitle = ''S2'', bf_body = ''B2'', bf_img_url = ''U2''\<rparr>)
            (Some 2) example_db = Inr (Redirect (Ep_show_post 1) [], Some 2, d') \<and>
          get_or_404 p_id (blog_posts d') 1
            = Inr \<lparr>p_id = 1, p_author_id = Some 2, p_title = ''New'', p_subtitle = ''S2'',
                   p_date = ''June 03, 2025'', p_body = ''B2'', p_img_url = ''U2''\<rparr> \<and>
          users d' = users example_db \<and> comments d' = comments example_db)"
proof -
  have missing: "9 \<notin> p_id ` set (blog_posts example_db) \<and> fits_int64 9"
    and mem: "example_post \<in> set (blog_posts example_db)"
    and dist: "distinct (map p_id (blog_posts example_db))"
    and fits: "fits_int64 (p_id example_post)"
    and fresh: "bf_title \<lparr>bf_title = ''New'', bf_subtitle = ''S2'', bf_body = ''B2'', bf_img_url = ''U2''\<rparr>
       \<notin> set (map p_title (filter (\<lambda>q. p_id q \<noteq> p_id example_post) (blog_posts example_db)))"
    and vals: "p_id example_post = 1" "p_date example_post = ''June 03, 2025''"
      "u_id example_reader = 2"
    by (simp_all add: example_defs fits_int64_def)
  note w = edit_post_overwrites
    [of 9 example_db None "Some 2" example_post example_reader
        "\<lparr>bf_title = ''New'', bf_subtitle = ''S2'', bf_body = ''B2'', bf_img_url = ''U2''\<rparr>"]
  from w missing have a: "edit_post 9 None (Some 2) example_db = Inl Not_Found"
    by blast
  have hyps: "example_post \<in> set (blog_posts example_db) \<and>
      distinct (map p_id (blog_posts example_db)) \<and> fits_int64 (p_id example_post) \<and>
      current_user (Some 2) example_db = Inr (Logged_in example_reader) \<and>
      bf_title \<lparr>bf_title = ''New'', bf_subtitle = ''S2'', bf_body = ''B2'', bf_img_url = ''U2''\<rparr>
        \<notin> set (map p_title (filter (\<lambda>q. p_id q \<noteq> p_id example_post) (blog_posts example_db)))"
    using mem dist fits example_reader_session fresh by (intro conjI)
  from w [THEN conjunct2, THEN mp, OF hyps] obtain d' where
    "edit_post (p_id example_post)
            (Some \<lparr>bf_title = ''New'', bf_subtitle = ''S2'', bf_body = ''B2'', bf_img_url = ''U2''\<rparr>)
            (Some 2) example_db = Inr (Redirect (Ep_show_post (p_id example_post)) [], Some 2, d')"
    "get_or_404 p_id (blog_posts d') (p_id example_post)
            = Inr \<lparr>p_id = p_id example_post, p_author_id = Some (u_id example_reader),
                   p_title = bf_title \<lparr>bf_title = ''New'', bf_subtitle = ''S2'', bf_body = ''B2'', bf_img_url = ''U2''\<rparr>,
                   p_subtitle = bf_subtitle \<lparr>bf_title = ''New'', bf_subtitle = ''S2'', bf_body = ''B2'', bf_img_url = ''U2''\<rparr>,
                   p_date = p_date example_post,
                   p_body = bf_body \<lparr>bf_title = ''New'', bf_subtitle = ''S2'', bf_body = ''B2'', bf_img_url = ''U2''\<rparr>,
                   p_img_url = bf_img_url \<lparr>bf_title = ''New'', bf_subtitle = ''S2'', bf_body = ''B2'', bf_img_url = ''U2''\<rparr>\<rparr>"
    "users d' = users example_db" "comments d' = comments example_db"
    by blast
  then have "edit_post 1
            (Some \<lparr>bf_title = ''New'', bf_subtitle = ''S2'', bf_body = ''B2'', bf_img_url = ''U2''\<rparr>)
            (Some 2) example_db = Inr (Redirect (Ep_show_post 1) [], Some 2, d') \<and>
          get_or_404 p_id (blog_posts d') 1
            = Inr \<lparr>p_id = 1, p_author_id = Some 2, p_title = ''New'', p_subtitle = ''S2'',
                   p_date = ''June 03, 2025'', p_body = ''B2'', p_img_url = ''U2''\<rparr> \<and>
          users d' = users example_db \<and> comments d' = comments example_db"
    by (simp add: vals)
  then have b: "\<exists>d'. edit_post 1
            (Some \<lparr>bf_title = ''New'', bf_subtitle = ''S2'', bf_body = ''B2'', bf_img_url = ''U2''\<rparr>)
            (Some 2) example_db = Inr (Redirect (Ep_show_post 1) [], Some 2, d') \<and>
          get_or_404 p_id (blog_posts d') 1
            = Inr \<lparr>p_id = 1, p_author_id = Some 2, p_title = ''New'', p_subtitle = ''S2'',
                   p_date = ''June 03, 2025'', p_body = ''B2'', p_img_url = ''U2''\<rparr> \<and>
          users d' = users example_db \<and> comments d' = comments example_db"
    by (rule exI)
  from a b show ?thesis by (rule conjI)
qed

section \<open>Adding a comment\<close>

text \<open>
  C8 (as stated): for every post id, a caller without a session is redirected to the
  login page, and an id that no post has gives HTTP 404. \<open>show_post\<close> loads the post
  first: for a post id that does not exist the caller without a session gets HTTP 404,
  not the redirect. And the id \<open>2^63\<close>, which no post has, is answered with
  \<open>OverflowError\<close>, not with HTTP 404.
\<close>

theorem show_post_missing_before_login:
  "show_post 9 (Some \<lparr>comment_text = ''hi''\<rparr>) None example_db = Inl Not_Found \<and>
   status_code Not_Found = 404 \<and>
   map p_id (blog_posts example_db) = [1] \<and>
   show_post 9223372036854775808 (Some \<lparr>comment_text = ''hi''\<rparr>) (Some 2) example_db
     = Inl OverflowError \<and>
   status_code OverflowError = 500"
  by (simp add: example_defs handler_defs)

text \<open>
  C8 (amended): \<open>show_post\<close> with an id that no post has and that the store can bind
  (a signed 64-bit integer) fails with HTTP 404, for every caller. On an existing post, a comment submitted without a session is answered by the
  flash message and the redirect to the login page, and the database is unchanged; a
  comment submitted by a logged-in user renders the post's page and appends exactly one
  row to the comments table, with the next id, the submitted text, the user as author
  and the post as parent; users and posts are unchanged.
\<close>

theorem show_post_comment:
  "(post_id \<notin> p_id ` set (blog_posts d) \<and> fits_int64 post_id \<longrightarrow>
      show_post post_id form sess d = Inl Not_Found) \<and>
   (p \<in> set (blog_posts d) \<and> distinct (map p_id (blog_posts d)) \<and> fits_int64 (p_id p) \<longrightarrow>
      show_post (p_id p) (Some f) None d
        = Inr (Redirect Ep_login [''You need to login or register to comment.''], None, d) \<and>
      (current_user sess d = Inr (Logged_in u) \<longrightarrow>
         show_post (p_id p) (Some f) sess d
           = Inr (Render (Post_html p), sess,
                  d\<lparr>comments := comments d @
                       [\<lparr>c_id = next_id (map c_id (comments d)), c_text = comment_text f,
                         c_author_id = Some (u_id u), c_post_id = Some (p_id p)\<rparr>]\<rparr>)))"
proof -
  have a: "show_post post_id form sess d = Inl Not_Found"
    if "post_id \<notin> p_id ` set (blog_posts d)" "fits_int64 post_id"
    using that by (simp add: show_post_def get_or_404_missing)
  have b: "show_post (p_id p) (Some f) None d
        = Inr (Redirect Ep_login [''You need to login or register to comment.''], None, d)"
    and c: "current_user sess d = Inr (Logged_in u) \<longrightarrow>
         show_post (p_id p) (Some f) sess d
           = Inr (Render (Post_html p), sess,
                  d\<lparr>comments := comments d @
                       [\<lparr>c_id = next_id (map c_id (comments d)), c_text = comment_text f,
                         c_author_id = Some (u_id u), c_post_id = Some (p_id p)\<rparr>]\<rparr>)"
    if mem: "p \<in> set (blog_posts d)" and dist: "distinct (map p_id (blog_posts d))"
      and fits: "fits_int64 (p_id p)"
  proof -
    have got: "get_or_404 p_id (blog_posts d) (p_id p) = Inr p"
      using dist mem fits by (rule get_or_404_distinct)
    show "show_post (p_id p) (Some f) None d
        = Inr (Redirect Ep_login [''You need to login or register to comment.''], None, d)"
      using got by (simp add: show_post_def current_user_def)
    show "current_user sess d = Inr (Logged_in u) \<longrightarrow>
         show_post (p_id p) (Some f) sess d
           = Inr (Render (Post_html p), sess,
                  d\<lparr>comments := comments d @
                       [\<lparr>c_id = next_id (map c_id (comments d)), c_text = comment_text f,
                         c_author_id = Some (u_id u), c_post_id = Some (p_id p)\<rparr>]\<rparr>)"
    proof
      assume cu: "current_user sess d = Inr (Logged_in u)"
      let ?d' = "d\<lparr>comments := comments d @
                       [\<lparr>c_id = next_id (map c_id (comments d)), c_text = comment_text f,
                         c_author_id = Some (u_id u), c_post_id = Some (p_id p)\<rparr>]\<rparr>"
      have "current_user sess ?d' = current_user sess d"
        by (rule current_user_same_users) simp
      with cu have "render_template (Post_html p) sess ?d' = Inr (Render (Post_html p), sess, ?d')"
        by (simp add: render_template_def)
      then show "show_post (p_id p) (Some f) sess d = Inr (Render (Post_html p), sess, ?d')"
        using got cu
        by (simp add: show_post_def as_author_Logged_in [OF cu] insert_comment_def Let_def)
    qed
  qed
  from a b c show ?thesis by blast
qed

theorem show_post_comment_witness:
  "show_post 9 (Some \<lparr>comment_text = ''again''\<rparr>) (Some 2) example_db = Inl Not_Found \<and>
   show_post 1 (Some \<lparr>comment_text = ''again''\<rparr>) None example_db
     = Inr (Redirect Ep_login [''You need to login or register to comment.''], None, example_db) \<and>
   show_post 1 (Some \<lparr>comment_text = ''again''\<rparr>) (Some 2) example_db
     = Inr (Render (Post_html example_post), Some 2,
            example_db\<lparr>comments := [example_comment,
              \<lparr>c_id = 2, c_text = ''again'', c_author_id = Some 2, c_post_id = Some 1\<rparr>]\<rparr>)"
proof -
  have missing: "9 \<notin> p_id ` set (blog_posts example_db) \<and> fits_int64 9"
    and mem: "example_post \<in> set (blog_posts example_db)"
    and dist: "distinct (map p_id (blog_posts example_db))"
    and fits: "fits_int64 (p_id example_post)"
    and vals: "p_id example_post = 1" "u_id example_reader = 2"
      "next_id (map c_id (comments example_db)) = 2"
      "comments example_db = [example_comment]"
    by (simp_all add: example_defs next_id_def fits_int64_def)
  note w1 = show_post_comment
    [of 9 example_db "Some \<lparr>comment_text = ''again''\<rparr>" "Some 2"]
  note w2 = show_post_comment
    [of _ example_db _ "Some 2" example_post "\<lparr>comment_text = ''again''\<rparr>" example_reader]
  from w1 missing
  have a: "show_post 9 (Some \<lparr>comment_text = ''again''\<rparr>) (Some 2) example_db = Inl Not_Found"
    by blast
  from w2 mem dist fits example_reader_session
  have "show_post (p_id example_post) (Some \<lparr>comment_text = ''again''\<rparr>) None example_db
     = Inr (Redirect Ep_login [''You need to login or register to comment.''], None, example_db) \<and>
   show_post (p_id example_post) (Some \<lparr>comment_text = ''again''\<rparr>) (Some 2) example_db
     = Inr (Render (Post_html example_post), Some 2,
            example_db\<lparr>comments := comments example_db @
              [\<lparr>c_id = next_id (map c_id (comments example_db)),
                c_text = comment_text \<lparr>comment_text = ''again''\<rparr>,
                c_author_id = Some (u_id example_reader),
                c_post_id = Some (p_id example_post)\<rparr>]\<rparr>)"
    by blast
  then have b: "show_post 1 (Some \<lparr>comment_text = ''again''\<rparr>) None example_db
     = Inr (Redirect Ep_login [''You need to login or register to comment.''], None, example_db) \<and>
   show_post 1 (Some \<lparr>comment_text = ''again''\<rparr>) (Some 2) example_db
     = Inr (Render (Post_html example_post), Some 2,
            example_db\<lparr>comments := [example_comment,
              \<lparr>c_id = 2, c_text = ''again'', c_author_id = Some 2, c_post_id = Some 1\<rparr>]\<rparr>)"
    by (simp add: vals next_id_def example_comment_def)
  from a b show ?thesis by (rule conjI)
qed

end
